theory Spec2Isabelle
  imports Complex_Main "HOL-Library.Sublist"
begin

section \<open>Errors\<close>

text \<open>
  A thrown JavaScript value, as the code reads it (\<open>err as Error\<close>): an \<open>Error\<close> with its
  \<open>name\<close>, \<open>message\<close> and optional \<open>stack\<close>, or the subclass \<open>RetryExhaustedError\<close> of
  the retry module with the two fields its constructor stores. The stack an engine attaches to an
  error is not computed by the program; errors that the modelled code constructs carry
  \<open>None\<close> there, and no modelled code reads the stack of an error it constructed.
\<close>

datatype js_error =
    Error string string "string option"
  | RetryExhaustedError js_error nat

definition digit_char :: "nat \<Rightarrow> char" where
  "digit_char d = ''0123456789'' ! (d mod 10)"

text \<open>Decimal rendering of a non-negative integer, as a template literal does it.\<close>

fun showNat :: "nat \<Rightarrow> string" where
  "showNat n = (if n < 10 then [digit_char n] else showNat (n div 10) @ [digit_char (n mod 10)])"

declare showNat.simps [simp del]

fun err_name :: "js_error \<Rightarrow> string" where
  "err_name (Error n m st) = n"
| "err_name (RetryExhaustedError e k) = ''RetryExhaustedError''"

fun err_message :: "js_error \<Rightarrow> string" where
  "err_message (Error n m st) = m"
| "err_message (RetryExhaustedError e k) =
     ''Retry failed after '' @ showNat k @ '' attempts. Last error: '' @ err_message e"

fun err_stack :: "js_error \<Rightarrow> string option" where
  "err_stack (Error n m st) = st"
| "err_stack (RetryExhaustedError e k) = None"

section \<open>The retry module (src/unnamed/part_001)\<close>

text \<open>
  \<open>RetryConfig\<close>. The delays are JavaScript numbers; they are modelled as reals, so the
  rounding of IEEE doubles is not part of the model. \<open>maxRetries\<close> is a number compared with
  the loop counter; it is an integer here, negative values included.
\<close>

record RetryConfig =
  enabled :: bool
  maxRetries :: int
  initialDelay :: real
  maxDelay :: real
  exponentialBase :: real
  retryableExceptions :: "string list"

definition defaultRetryConfig :: RetryConfig where
  "defaultRetryConfig =
     \<lparr>enabled = True, maxRetries = 3, initialDelay = 1, maxDelay = 60,
      exponentialBase = 2, retryableExceptions = [''Error'']\<rparr>"

definition calculateDelay :: "RetryConfig \<Rightarrow> nat \<Rightarrow> real" where
  "calculateDelay config attempt =
     (let delay = initialDelay config * exponentialBase config ^ attempt
      in min delay (maxDelay config))"

text \<open>
  What one call of the function wrapped by \<open>asyncRetry\<close> did: how it ended (\<open>Inl\<close> is the
  value it threw), how often it invoked the wrapped operation, the delays it slept (seconds,
  in order) and the calls it made to \<open>onRetry\<close>.
\<close>

record 'a retry_trace =
  outcome :: "js_error + 'a"
  invocations :: nat
  waits :: "real list"
  retryCalls :: "(js_error \<times> nat) list"

text \<open>
  The loop of the wrapped function. \<open>op k\<close> is how the \<open>k\<close>-th invocation (from 0) of the
  wrapped operation ends; \<open>hasOnRetry\<close> says whether the callback was given (the callback is
  an observer and returns normally); \<open>tr\<close> accumulates what happened so far.
\<close>

function asyncRetry_loop ::
  "RetryConfig \<Rightarrow> bool \<Rightarrow> (nat \<Rightarrow> js_error + 'a) \<Rightarrow> nat \<Rightarrow> js_error option \<Rightarrow>
   'a retry_trace \<Rightarrow> 'a retry_trace" where
  "asyncRetry_loop config hasOnRetry op attempt lastException tr =
     (if int attempt \<le> maxRetries config then
        (case op (invocations tr) of
           Inr v \<Rightarrow> tr\<lparr>outcome := Inr v, invocations := Suc (invocations tr)\<rparr>
         | Inl exception \<Rightarrow>
             if int attempt \<ge> maxRetries config then
               tr\<lparr>outcome := Inl (RetryExhaustedError exception (attempt + 1)),
                  invocations := Suc (invocations tr)\<rparr>
             else
               (let delay = calculateDelay config attempt
                in asyncRetry_loop config hasOnRetry op (attempt + 1) (Some exception)
                     (tr\<lparr>invocations := Suc (invocations tr),
                         waits := waits tr @ [delay],
                         retryCalls := retryCalls tr @
                           (if hasOnRetry then [(exception, attempt + 1)] else [])\<rparr>)))
      else
        (case lastException of
           Some e \<Rightarrow> tr\<lparr>outcome := Inl e\<rparr>
         | None \<Rightarrow> tr\<lparr>outcome := Inl (Error ''Error'' ''Unknown error'' None)\<rparr>))"
  by pat_completeness auto
termination
  by (relation "measure (\<lambda>(config, hasOnRetry, op, attempt, lastException, tr).
        nat (maxRetries config + 1 - int attempt))") auto

declare asyncRetry_loop.simps [simp del]

definition asyncRetry :: "RetryConfig \<Rightarrow> bool \<Rightarrow> (nat \<Rightarrow> js_error + 'a) \<Rightarrow> 'a retry_trace" where
  "asyncRetry config hasOnRetry op =
     asyncRetry_loop config hasOnRetry op 0 None
       \<lparr>outcome = Inl (Error ''Error'' ''Unknown error'' None), invocations = 0,
        waits = [], retryCalls = []\<rparr>"

section \<open>Messages and tools (schema.ts, src/unnamed/part_003)\<close>

text \<open>
  A JSON value. An object is the list of its own enumerable properties, with distinct keys,
  in the order in which they were created (the order of the text that \<open>JSON.parse\<close> read, or
  of the object literal); a \<open>Record<string, unknown>\<close> is such a list.
\<close>

datatype json =
    JNull
  | JBool bool
  | JNumber int
  | JString string
  | JArray "json list"
  | JObject "(string \<times> json) list"

type_synonym js_object = "(string \<times> json) list"

text \<open>
  What reading a property of such an object gives, and what a positional argument of a tool
  can be: \<open>undefined\<close>, a JSON value, or the member of \<open>Object.prototype\<close> of the given name.
\<close>

datatype js_value = JsUndefined | JsData json | Inherited string

text \<open>The names of the properties of \<open>Object.prototype\<close>.\<close>

definition objectPrototypeKeys :: "string list" where
  "objectPrototypeKeys =
     [''constructor'', ''__defineGetter__'', ''__defineSetter__'', ''hasOwnProperty'',
      ''__lookupGetter__'', ''__lookupSetter__'', ''isPrototypeOf'', ''propertyIsEnumerable'',
      ''toString'', ''valueOf'', ''__proto__'', ''toLocaleString'']"

text \<open>
  \<open>obj[key]\<close> on a plain object: the own property, else the member that the object inherits
  from \<open>Object.prototype\<close>, else \<open>undefined\<close>.
\<close>

definition getProperty :: "js_object \<Rightarrow> string \<Rightarrow> js_value" where
  "getProperty obj key =
     (case map_of obj key of
        Some v \<Rightarrow> JsData v
      | None \<Rightarrow> if key \<in> set objectPrototypeKeys then Inherited key else JsUndefined)"

text \<open>
  The order of \<open>Object.keys\<close> and \<open>Object.values\<close>: first the keys that are array indices (a
  canonical decimal numeral below \<open>2 ^ 32 - 1\<close>) in ascending numeric order, then the other
  keys in the order of their creation.
\<close>

definition digitValue :: "char \<Rightarrow> nat" where
  "digitValue c = length (takeWhile (\<lambda>d. d \<noteq> c) ''0123456789'')"

definition indexValue :: "string \<Rightarrow> nat" where
  "indexValue k = foldl (\<lambda>acc c. 10 * acc + digitValue c) 0 k"

definition isArrayIndex :: "string \<Rightarrow> bool" where
  "isArrayIndex k =
     (case k of
        [] \<Rightarrow> False
      | c # cs \<Rightarrow>
          list_all (\<lambda>d. d \<in> set ''0123456789'') k \<and>
          (if c = CHR ''0'' then cs = [] else True) \<and>
          indexValue k < 4294967295)"

definition ownEntries :: "js_object \<Rightarrow> js_object" where
  "ownEntries obj =
     sort_key (\<lambda>kv. indexValue (fst kv)) (filter (\<lambda>kv. isArrayIndex (fst kv)) obj) @
     filter (\<lambda>kv. \<not> isArrayIndex (fst kv)) obj"

definition objectKeys :: "js_object \<Rightarrow> string list" where
  "objectKeys obj = map fst (ownEntries obj)"

definition objectValues :: "js_object \<Rightarrow> json list" where
  "objectValues obj = map snd (ownEntries obj)"

record FunctionCall =
  fn_name :: string
  arguments :: js_object

record ToolCall =
  tc_id :: string
  tc_type :: string
  tc_function :: FunctionCall

datatype content = Text string | Blocks "js_object list"

text \<open>A field that is \<open>null\<close> or absent is \<open>None\<close>.\<close>

record Message =
  role :: string
  content :: content
  thinking :: "string option"
  tool_calls :: "ToolCall list option"
  tool_call_id :: "string option"
  name :: "string option"

record TokenUsage =
  prompt_tokens :: int
  completion_tokens :: int
  total_tokens :: int

record LLMResponse =
  resp_content :: string
  resp_thinking :: "string option"
  resp_tool_calls :: "ToolCall list option"
  finish_reason :: string
  usage :: "TokenUsage option"

record ToolResult =
  success :: bool
  result_content :: string
  error :: "string option"

text \<open>
  A value that a tool throws, as the \<open>catch\<close> of the dispatch reads it: \<open>null\<close>,
  \<open>undefined\<close>, or another value, given by its \<open>name\<close>, its \<open>message\<close> and its \<open>stack\<close>, each a
  string or \<open>None\<close> when reading the property gives \<open>undefined\<close> (for \<open>stack\<close>, also \<open>null\<close>).
  An \<open>Error\<close> object is such a value with a name and a message.
\<close>

datatype thrown =
    ThrownNull
  | ThrownUndefined
  | ThrownValue "string option" "string option" "string option"

definition thrownError :: "js_error \<Rightarrow> thrown" where
  "thrownError e = ThrownValue (Some (err_name e)) (Some (err_message e)) (err_stack e)"

text \<open>
  A tool: its name, the \<open>properties\<close> object of its parameters schema when the schema has
  one, and \<open>execute\<close>. \<open>execute\<close> gets the positional arguments and the number of external
  calls made so far, so that it may answer differently on each call; \<open>Inl\<close> is the value it
  threw.
\<close>

record Tool =
  tool_name :: string
  properties :: "js_object option"
  execute :: "nat \<Rightarrow> js_value list \<Rightarrow> thrown + ToolResult"

section \<open>The agent module (src/unnamed/part_002): events and context\<close>

datatype event =
    TokenEstimationFallbacked js_error
  | SummarizeMessagesStarted nat int int
  | SummarizeMessagesFinished_ok string nat nat nat nat
  | SummarizeMessagesFinished_failed string
  | CreateSummaryFinished_ok string nat string
  | CreateSummaryFinished_failed string nat js_error
  | StepStarted nat nat
  | RunFinished_ok string
  | RunFinished_failed string js_error
  | LlmResponseReceived LLMResponse
  | ToolCallStarted string string js_object
  | ToolCallFinished bool string string ToolResult

text \<open>
  What the program gets from outside. \<open>generate k msgs\<close> is how the LLM client's \<open>generate\<close>
  ends when it is called on \<open>msgs\<close> after \<open>k\<close> earlier external calls (\<open>Inl\<close>: it threw).
  \<open>get_encoding\<close> is how \<open>get_encoding("cl100k_base")\<close> ends: it throws, or it gives an
  encoder, which on a text throws or returns its tokens. \<open>stringify\<close> is \<open>JSON.stringify\<close>.
\<close>

record world =
  generate :: "nat \<Rightarrow> Message list \<Rightarrow> js_error + LLMResponse"
  get_encoding :: "js_error + (string \<Rightarrow> js_error + nat list)"
  stringify :: "json \<Rightarrow> string"

text \<open>
  The fields of \<open>ContextManager\<close> that the modelled methods use, the log of the events
  emitted on the shared \<open>AgentEventsEmitter\<close>, and \<open>clock\<close>, the number of external calls
  (LLM requests and tool executions) made so far.
\<close>

record ContextManager =
  tokenLimit :: int
  tools :: "Tool list"
  messages :: "Message list"
  apiTotalTokens :: int
  skipNextTokenCheck :: bool
  events :: "event list"
  clock :: nat

definition emit :: "ContextManager \<Rightarrow> event \<Rightarrow> ContextManager" where
  "emit cm ev = cm\<lparr>events := events cm @ [ev]\<rparr>"

definition tick :: "ContextManager \<Rightarrow> ContextManager" where
  "tick cm = cm\<lparr>clock := Suc (clock cm)\<rparr>"

text \<open>\<open>new Map(tools.map((tool) => [tool.name, tool]))\<close>: a later tool of the same name wins.\<close>

definition toolDict :: "ContextManager \<Rightarrow> string \<Rightarrow> Tool option" where
  "toolDict cm = map_of (rev (map (\<lambda>tool. (tool_name tool, tool)) (tools cm)))"

definition newMessage :: "string \<Rightarrow> content \<Rightarrow> Message" where
  "newMessage r c =
     \<lparr>role = r, content = c, thinking = None, tool_calls = None, tool_call_id = None,
      name = None\<rparr>"

definition newContextManager :: "string \<Rightarrow> Tool list \<Rightarrow> int \<Rightarrow> ContextManager" where
  "newContextManager systemPrompt ts limit =
     \<lparr>tokenLimit = limit, tools = ts, messages = [newMessage ''system'' (Text systemPrompt)],
      apiTotalTokens = 0, skipNextTokenCheck = False, events = [], clock = 0\<rparr>"

definition addUserMessage :: "ContextManager \<Rightarrow> string \<Rightarrow> ContextManager" where
  "addUserMessage cm c = cm\<lparr>messages := messages cm @ [newMessage ''user'' (Text c)]\<rparr>"

definition addAssistantMessage :: "ContextManager \<Rightarrow> LLMResponse \<Rightarrow> ContextManager" where
  "addAssistantMessage cm response =
     cm\<lparr>messages := messages cm @
        [\<lparr>role = ''assistant'', content = Text (resp_content response),
          thinking = resp_thinking response, tool_calls = resp_tool_calls response,
          tool_call_id = None, name = None\<rparr>]\<rparr>"

definition toolMessage :: "ToolResult \<Rightarrow> string \<Rightarrow> string \<Rightarrow> Message" where
  "toolMessage result toolCallId nm =
     (let c = (if success result then result_content result
               else ''Error: '' @ (case error result of None \<Rightarrow> ''null'' | Some e \<Rightarrow> e))
      in \<lparr>role = ''tool'', content = Text c, thinking = None, tool_calls = None,
          tool_call_id = Some toolCallId, name = Some nm\<rparr>)"

definition addToolMessage :: "ContextManager \<Rightarrow> ToolResult \<Rightarrow> string \<Rightarrow> string \<Rightarrow> ContextManager" where
  "addToolMessage cm result toolCallId nm =
     cm\<lparr>messages := messages cm @ [toolMessage result toolCallId nm]\<rparr>"

definition updateApiTokens :: "ContextManager \<Rightarrow> LLMResponse \<Rightarrow> ContextManager" where
  "updateApiTokens cm response =
     (case usage response of
        Some u \<Rightarrow> cm\<lparr>apiTotalTokens := total_tokens u\<rparr>
      | None \<Rightarrow> cm)"

subsection \<open>Token estimation\<close>

definition toolCallJson :: "ToolCall \<Rightarrow> json" where
  "toolCallJson tc =
     JObject [(''id'', JString (tc_id tc)), (''type'', JString (tc_type tc)),
       (''function'', JObject [(''name'', JString (fn_name (tc_function tc))),
          (''arguments'', JObject (arguments (tc_function tc)))])]"

definition toolCallsJson :: "ToolCall list \<Rightarrow> json" where
  "toolCallsJson tcs = JArray (map toolCallJson tcs)"

text \<open>
  The body of the \<open>try\<close> of \<open>estimateTokens\<close>, one message at a time; the last argument is
  \<open>totalTokens\<close> so far and \<open>Inl\<close> is what \<open>encode\<close> threw. A truthy \<open>thinking\<close> is a
  non-empty string; a \<open>tool_calls\<close> array is truthy also when it is empty.
\<close>

fun blockTokens ::
  "(string \<Rightarrow> js_error + nat list) \<Rightarrow> (json \<Rightarrow> string) \<Rightarrow> js_object list \<Rightarrow> nat \<Rightarrow> js_error + nat" where
  "blockTokens enc str [] totalTokens = Inr totalTokens"
| "blockTokens enc str (block # blocks) totalTokens =
     (case enc (str (JObject block)) of
        Inl e \<Rightarrow> Inl e
      | Inr ts \<Rightarrow> blockTokens enc str blocks (totalTokens + length ts))"

definition contentTokens ::
  "(string \<Rightarrow> js_error + nat list) \<Rightarrow> (json \<Rightarrow> string) \<Rightarrow> content \<Rightarrow> nat \<Rightarrow> js_error + nat" where
  "contentTokens enc str c totalTokens =
     (case c of
        Text t \<Rightarrow> (case enc t of Inl e \<Rightarrow> Inl e | Inr ts \<Rightarrow> Inr (totalTokens + length ts))
      | Blocks bs \<Rightarrow> blockTokens enc str bs totalTokens)"

definition thinkingTokens ::
  "(string \<Rightarrow> js_error + nat list) \<Rightarrow> string option \<Rightarrow> nat \<Rightarrow> js_error + nat" where
  "thinkingTokens enc th totalTokens =
     (case th of
        None \<Rightarrow> Inr totalTokens
      | Some t \<Rightarrow>
          if t = [] then Inr totalTokens
          else (case enc t of Inl e \<Rightarrow> Inl e | Inr ts \<Rightarrow> Inr (totalTokens + length ts)))"

definition toolCallsTokens ::
  "(string \<Rightarrow> js_error + nat list) \<Rightarrow> (json \<Rightarrow> string) \<Rightarrow> ToolCall list option \<Rightarrow> nat \<Rightarrow>
   js_error + nat" where
  "toolCallsTokens enc str tcs totalTokens =
     (case tcs of
        None \<Rightarrow> Inr totalTokens
      | Some cs \<Rightarrow>
          (case enc (str (toolCallsJson cs)) of
             Inl e \<Rightarrow> Inl e
           | Inr ts \<Rightarrow> Inr (totalTokens + length ts)))"

definition messageTokens ::
  "(string \<Rightarrow> js_error + nat list) \<Rightarrow> (json \<Rightarrow> string) \<Rightarrow> Message \<Rightarrow> nat \<Rightarrow> js_error + nat" where
  "messageTokens enc str msg totalTokens =
     (case contentTokens enc str (content msg) totalTokens of
        Inl e \<Rightarrow> Inl e
      | Inr t1 \<Rightarrow>
          (case thinkingTokens enc (thinking msg) t1 of
             Inl e \<Rightarrow> Inl e
           | Inr t2 \<Rightarrow>
               (case toolCallsTokens enc str (tool_calls msg) t2 of
                  Inl e \<Rightarrow> Inl e
                | Inr t3 \<Rightarrow> Inr (t3 + 4))))"

fun tokensLoop ::
  "(string \<Rightarrow> js_error + nat list) \<Rightarrow> (json \<Rightarrow> string) \<Rightarrow> Message list \<Rightarrow> nat \<Rightarrow> js_error + nat" where
  "tokensLoop enc str [] totalTokens = Inr totalTokens"
| "tokensLoop enc str (msg # msgs) totalTokens =
     (case messageTokens enc str msg totalTokens of
        Inl e \<Rightarrow> Inl e
      | Inr t \<Rightarrow> tokensLoop enc str msgs t)"

definition tiktokenCount :: "world \<Rightarrow> Message list \<Rightarrow> js_error + nat" where
  "tiktokenCount w msgs =
     (case get_encoding w of
        Inl e \<Rightarrow> Inl e
      | Inr enc \<Rightarrow> tokensLoop enc (stringify w) msgs 0)"

definition messageChars :: "(json \<Rightarrow> string) \<Rightarrow> Message \<Rightarrow> nat" where
  "messageChars str msg =
     (case content msg of
        Text t \<Rightarrow> length t
      | Blocks bs \<Rightarrow> sum_list (map (\<lambda>block. length (str (JObject block))) bs))
     + (case thinking msg of None \<Rightarrow> 0 | Some t \<Rightarrow> length t)
     + (case tool_calls msg of None \<Rightarrow> 0 | Some cs \<Rightarrow> length (str (toolCallsJson cs)))"

text \<open>
  \<open>Math.floor(totalChars / 2.5)\<close>; for a character count below \<open>2 ^ 51\<close> the double
  division and the floor give exactly \<open>2 * totalChars div 5\<close>.
\<close>

definition estimateTokensFallback :: "world \<Rightarrow> ContextManager \<Rightarrow> nat" where
  "estimateTokensFallback w cm =
     (let totalChars = sum_list (map (messageChars (stringify w)) (messages cm))
      in (2 * totalChars) div 5)"

text \<open>\<open>estimateTokens\<close> returns the count and, on the fallback path, has emitted the event.\<close>

definition estimateTokens :: "world \<Rightarrow> ContextManager \<Rightarrow> nat \<times> ContextManager" where
  "estimateTokens w cm =
     (case tiktokenCount w (messages cm) of
        Inr totalTokens \<Rightarrow> (totalTokens, cm)
      | Inl e \<Rightarrow> (estimateTokensFallback w (emit cm (TokenEstimationFallbacked e)),
                  emit cm (TokenEstimationFallbacked e)))"

subsection \<open>Summarization\<close>

text \<open>
  The transcript that \<open>createSummary\<close> builds. Two literals of the source hold an arrow
  (U+2192, U+2190); each is written here as the three bytes of its UTF-8 form.
\<close>

definition contentText :: "(json \<Rightarrow> string) \<Rightarrow> content \<Rightarrow> string" where
  "contentText str c =
     (case c of Text t \<Rightarrow> t | Blocks bs \<Rightarrow> str (JArray (map JObject bs)))"

fun joinWith :: "string \<Rightarrow> string list \<Rightarrow> string" where
  "joinWith sep [] = []"
| "joinWith sep [x] = x"
| "joinWith sep (x # y # ys) = x @ sep @ joinWith sep (y # ys)"

definition transcriptLine :: "(json \<Rightarrow> string) \<Rightarrow> Message \<Rightarrow> string" where
  \<open>transcriptLine str msg =
     (if role msg = ''assistant'' then
        ''Assistant: '' @ contentText str (content msg) @ ''\<newline>'' @
        (case tool_calls msg of
           None \<Rightarrow> []
         | Some tcs \<Rightarrow>
             ''  '' @ [CHR 0xE2, CHR 0x86, CHR 0x92] @ '' Called tools: '' @
             joinWith '', '' (map (\<lambda>tc. fn_name (tc_function tc)) tcs) @ ''\<newline>'')
      else if role msg = ''tool'' then
        ''  '' @ [CHR 0xE2, CHR 0x86, CHR 0x90] @ '' Tool returned: '' @
        contentText str (content msg) @ ''...\<newline>''
      else [])\<close>

definition summaryTranscript :: "(json \<Rightarrow> string) \<Rightarrow> Message list \<Rightarrow> nat \<Rightarrow> string" where
  \<open>summaryTranscript str msgs roundNum =
     ''Round '' @ showNat roundNum @ '' execution process:\<newline>\<newline>'' @
     concat (map (transcriptLine str) msgs)\<close>

definition summaryPrompt :: "string \<Rightarrow> string" where
  \<open>summaryPrompt summaryContent =
     ''Please provide a concise summary of the following Agent execution process:\<newline>\<newline>'' @
     summaryContent @
     ''\<newline>\<newline>Requirements:\<newline>1. Focus on what tasks were completed and which tools were called\<newline>'' @
     ''2. Keep key execution results and important findings\<newline>'' @
     ''3. Be concise and clear, within 1000 words\<newline>4. Use English\<newline>'' @
     ''5. Do not include "user" related content, only summarize the Agent's execution process''\<close>

text \<open>\<open>createSummary\<close> returns the summary text; the event and the LLM request are in the state.\<close>

definition createSummary ::
  "world \<Rightarrow> ContextManager \<Rightarrow> Message list \<Rightarrow> nat \<Rightarrow> string \<times> ContextManager" where
  "createSummary w cm msgs roundNum =
     (if length msgs = 0 then ([], cm)
      else
        (let summaryContent = summaryTranscript (stringify w) msgs roundNum;
             summaryMsg = newMessage ''user'' (Text (summaryPrompt summaryContent))
         in case generate w (clock cm)
                   [newMessage ''system''
                      (Text ''You are an assistant skilled at summarizing Agent execution processes.''),
                    summaryMsg] of
              Inr response \<Rightarrow>
                (resp_content response,
                 emit (tick cm)
                   (CreateSummaryFinished_ok ''Summary generation succeeded.'' roundNum
                      (resp_content response)))
            | Inl e \<Rightarrow>
                (summaryContent,
                 emit (tick cm)
                   (CreateSummaryFinished_failed ''Summary generation failed.'' roundNum e))))"

text \<open>\<open>xs.slice(a, b)\<close> for \<open>0 \<le> a\<close>.\<close>

definition slice :: "'a list \<Rightarrow> nat \<Rightarrow> nat \<Rightarrow> 'a list" where
  "slice xs a b = take (b - a) (drop a xs)"

definition userIndices :: "Message list \<Rightarrow> nat list" where
  "userIndices msgs =
     filter (\<lambda>index. role (msgs ! index) = ''user'' \<and> index > 0) [0..<length msgs]"

definition summaryMessage :: "string \<Rightarrow> Message" where
  \<open>summaryMessage summaryText =
     newMessage ''user'' (Text (''[Assistant Execution Summary]\<newline>\<newline>'' @ summaryText))\<close>

text \<open>
  The \<open>for\<close> loop of \<open>summarizeMessages\<close>. The second argument is what is left of
  \<open>userIndices\<close> from position \<open>i\<close> on, so that \<open>userIndices[i + 1]\<close> is the head of its
  tail; the loop is only run on the indices of \<open>userIndices\<close>, which are in range. The last
  argument is \<open>newMessages\<close>, \<open>summaryCount\<close> and the state.
\<close>

fun summarizeLoop ::
  "world \<Rightarrow> nat list \<Rightarrow> nat \<Rightarrow> Message list \<times> nat \<times> ContextManager \<Rightarrow>
   Message list \<times> nat \<times> ContextManager" where
  "summarizeLoop w [] i acc = acc"
| "summarizeLoop w (userIdx # rest) i (newMessages, summaryCount, cm) =
     (let newMessages1 = newMessages @ [messages cm ! userIdx];
          nextUserIdx = (case rest of [] \<Rightarrow> length (messages cm) | n # ns \<Rightarrow> n);
          executionMessages = slice (messages cm) (userIdx + 1) nextUserIdx
      in if length executionMessages > 0 then
           (case createSummary w cm executionMessages (i + 1) of
              (summaryText, cm1) \<Rightarrow>
                if summaryText \<noteq> [] then
                  summarizeLoop w rest (i + 1)
                    (newMessages1 @ [summaryMessage summaryText], summaryCount + 1, cm1)
                else summarizeLoop w rest (i + 1) (newMessages1, summaryCount, cm1))
         else summarizeLoop w rest (i + 1) (newMessages1, summaryCount, cm))"

text \<open>\<open>summarizeMessages\<close> from the token check on (the flag was clear).\<close>

definition summarizeChecked :: "world \<Rightarrow> ContextManager \<Rightarrow> ContextManager" where
  "summarizeChecked w cm0 =
     (case estimateTokens w cm0 of
        (estimatedTokens, cm) \<Rightarrow>
          (let shouldSummarize =
                 (int estimatedTokens > tokenLimit cm \<or> apiTotalTokens cm > tokenLimit cm)
           in if \<not> shouldSummarize then cm
              else
                (let cm1 = emit cm (SummarizeMessagesStarted estimatedTokens (apiTotalTokens cm)
                                      (tokenLimit cm));
                     uis = userIndices (messages cm1)
                 in if length uis < 1 then
                      emit cm1 (SummarizeMessagesFinished_failed
                                  ''Insufficient messages, cannot summarize.'')
                    else
                      (case summarizeLoop w uis 0 ([messages cm1 ! 0], 0, cm1) of
                         (newMessages, summaryCount, cm2) \<Rightarrow>
                           (let cm3 = cm2\<lparr>messages := newMessages, skipNextTokenCheck := True\<rparr>
                            in case estimateTokens w cm3 of
                                 (newTokens, cm4) \<Rightarrow>
                                   emit cm4
                                     (SummarizeMessagesFinished_ok
                                        ''Summary completed and API token count will update on next LLM call.''
                                        estimatedTokens newTokens (length uis) summaryCount))))))"

definition summarizeMessages :: "world \<Rightarrow> ContextManager \<Rightarrow> ContextManager" where
  "summarizeMessages w cm =
     (if skipNextTokenCheck cm then cm\<lparr>skipNextTokenCheck := False\<rparr>
      else summarizeChecked w cm)"

section \<open>The agent module (src/unnamed/part_002): the agent loop\<close>

text \<open>
  The positional arguments of \<open>execute\<close>: \<open>Object.keys(props).map((key) => callArgs[key])\<close>,
  or \<open>Object.values(callArgs)\<close> when the schema has no \<open>properties\<close>.
\<close>

definition positionalArgs :: "Tool \<Rightarrow> js_object \<Rightarrow> js_value list" where
  "positionalArgs tool callArgs =
     (case properties tool of
        Some props \<Rightarrow> map (\<lambda>key. getProperty callArgs key) (objectKeys props)
      | None \<Rightarrow> map JsData (objectValues callArgs))"

definition failedResult :: "string \<Rightarrow> ToolResult" where
  "failedResult msg = \<lparr>success = False, result_content = [], error = Some msg\<rparr>"

text \<open>
  The texts that the \<open>catch\<close> block reads from a thrown value that is not \<open>null\<close> or
  \<open>undefined\<close>: \<open>${err.name}\<close> and \<open>${err.message}\<close>, where a template literal renders
  \<open>undefined\<close> as that word, and \<open>err.stack ?? ""\<close>. A thrown \<open>null\<close> or \<open>undefined\<close> has no
  properties, and the functions give the empty text there.
\<close>

definition renderProperty :: "string option \<Rightarrow> string" where
  "renderProperty p = (case p of None \<Rightarrow> ''undefined'' | Some s \<Rightarrow> s)"

fun thrownName :: "thrown \<Rightarrow> string" where
  "thrownName (ThrownValue n m st) = renderProperty n"
| "thrownName ThrownNull = []"
| "thrownName ThrownUndefined = []"

fun thrownMessage :: "thrown \<Rightarrow> string" where
  "thrownMessage (ThrownValue n m st) = renderProperty m"
| "thrownMessage ThrownNull = []"
| "thrownMessage ThrownUndefined = []"

fun thrownStack :: "thrown \<Rightarrow> string" where
  "thrownStack (ThrownValue n m st) = (case st of None \<Rightarrow> [] | Some s \<Rightarrow> s)"
| "thrownStack ThrownNull = []"
| "thrownStack ThrownUndefined = []"

text \<open>
  The \<open>catch\<close> block of the dispatch. Reading \<open>err.name\<close> of \<open>null\<close> or \<open>undefined\<close> throws a
  \<open>TypeError\<close> (the message is the one of V8), which leaves the block: that is \<open>Inl\<close>.
\<close>

definition catchBlock :: "thrown \<Rightarrow> js_error + ToolResult" where
  \<open>catchBlock err =
     (case err of
        ThrownNull \<Rightarrow>
          Inl (Error ''TypeError'' ''Cannot read properties of null (reading 'name')'' None)
      | ThrownUndefined \<Rightarrow>
          Inl (Error ''TypeError'' ''Cannot read properties of undefined (reading 'name')'' None)
      | ThrownValue n m st \<Rightarrow>
          (let errorDetail = thrownName err @ '': '' @ thrownMessage err;
               errorTrace = thrownStack err
           in Inr (failedResult
                (''Tool execution failed: '' @ errorDetail @
                 ''\<newline>\<newline>Traceback:\<newline>'' @ errorTrace))))\<close>

text \<open>
  The \<open>if (!tool) ... else try ... catch\<close> that computes \<open>result\<close>. Its value is \<open>Inl\<close> when
  an exception leaves the statement, and \<open>Inr\<close> of the result otherwise.
\<close>

definition executeTool :: "ContextManager \<Rightarrow> ToolCall \<Rightarrow> js_error + ToolResult" where
  "executeTool cm toolCall =
     (let functionName = fn_name (tc_function toolCall);
          callArgs = arguments (tc_function toolCall)
      in case toolDict cm functionName of
           None \<Rightarrow> Inr (failedResult (''Unknown tool: '' @ functionName))
         | Some tool \<Rightarrow>
             (case execute tool (clock cm) (positionalArgs tool callArgs) of
                Inr result \<Rightarrow> Inr result
              | Inl err \<Rightarrow> catchBlock err))"

text \<open>The body of the loop over \<open>response.tool_calls\<close>, for one tool call.\<close>

definition dispatchToolCall :: "ContextManager \<Rightarrow> ToolCall \<Rightarrow> js_error + ContextManager" where
  "dispatchToolCall cm toolCall =
     (let toolCallId = tc_id toolCall;
          functionName = fn_name (tc_function toolCall);
          callArgs = arguments (tc_function toolCall);
          cm1 = emit cm (ToolCallStarted toolCallId functionName callArgs)
      in case executeTool cm1 toolCall of
           Inl e \<Rightarrow> Inl e
         | Inr result \<Rightarrow>
             (let cm2 = (if toolDict cm1 functionName = None then cm1 else tick cm1);
                  cm3 = emit cm2 (ToolCallFinished (success result) toolCallId functionName result)
              in Inr (addToolMessage cm3 result toolCallId functionName)))"

fun dispatchToolCalls :: "ContextManager \<Rightarrow> ToolCall list \<Rightarrow> js_error + ContextManager" where
  "dispatchToolCalls cm [] = Inr cm"
| "dispatchToolCalls cm (toolCall # rest) =
     (case dispatchToolCall cm toolCall of
        Inl e \<Rightarrow> Inl e
      | Inr cm1 \<Rightarrow> dispatchToolCalls cm1 rest)"

text \<open>
  One iteration of the \<open>while\<close> loop of \<open>Agent.run\<close>: \<open>Inl\<close> when an exception leaves
  \<open>run\<close>, \<open>Done\<close> when the iteration returned from \<open>run\<close>, \<open>Next\<close> when it reached
  \<open>step += 1\<close>.
\<close>

datatype step_outcome = Done ContextManager | Next ContextManager

definition runStep :: "world \<Rightarrow> nat \<Rightarrow> nat \<Rightarrow> ContextManager \<Rightarrow> js_error + step_outcome" where
  "runStep w maxSteps step cm0 =
     (let cm1 = summarizeMessages w cm0;
          cm2 = emit cm1 (StepStarted (step + 1) maxSteps)
      in case generate w (clock cm2) (messages cm2) of
           Inl err \<Rightarrow>
             (case err of
                RetryExhaustedError lastException attempts \<Rightarrow>
                  Inr (Done (emit (tick cm2)
                    (RunFinished_failed
                       (''LLM call failed after '' @ showNat attempts @ '' retries.'') err)))
              | Error n m st \<Rightarrow>
                  Inr (Done (emit (tick cm2) (RunFinished_failed ''LLM call failed.'' err))))
         | Inr response \<Rightarrow>
             (let cm3 = emit (tick cm2) (LlmResponseReceived response);
                  cm4 = updateApiTokens cm3 response;
                  cm5 = addAssistantMessage cm4 response
              in case resp_tool_calls response of
                   None \<Rightarrow> Inr (Done (emit cm5 (RunFinished_ok (resp_content response))))
                 | Some tcs \<Rightarrow>
                     if length tcs = 0 then
                       Inr (Done (emit cm5 (RunFinished_ok (resp_content response))))
                     else
                       (case dispatchToolCalls cm5 tcs of
                          Inl e \<Rightarrow> Inl e
                        | Inr cm6 \<Rightarrow> Inr (Next cm6))))"

function runLoop :: "world \<Rightarrow> nat \<Rightarrow> nat \<Rightarrow> ContextManager \<Rightarrow> js_error + ContextManager" where
  "runLoop w maxSteps step cm =
     (if step < maxSteps then
        (case runStep w maxSteps step cm of
           Inl e \<Rightarrow> Inl e
         | Inr (Done cm1) \<Rightarrow> Inr cm1
         | Inr (Next cm1) \<Rightarrow> runLoop w maxSteps (step + 1) cm1)
      else
        (let errorMsg = ''Task couldn't be completed after '' @ showNat maxSteps @ '' steps.''
         in Inr (emit cm (RunFinished_failed errorMsg (Error ''Error'' errorMsg None)))))"
  by pat_completeness auto
termination
  by (relation "measure (\<lambda>(w, maxSteps, step, cm). maxSteps - step)") auto

declare runLoop.simps [simp del]

definition run :: "world \<Rightarrow> nat \<Rightarrow> ContextManager \<Rightarrow> js_error + ContextManager" where
  "run w maxSteps cm = runLoop w maxSteps 0 cm"

section \<open>The summarization algorithm in the words of the specification\<close>

definition isUser :: "Message \<Rightarrow> bool" where
  "isUser m = (role m = ''user'')"

text \<open>
  The trigger condition of \<open>summarizeMessages\<close>: the local estimate or the total reported
  by the provider exceeds the token limit.
\<close>

definition shouldSummarize :: "world \<Rightarrow> ContextManager \<Rightarrow> bool" where
  "shouldSummarize w cm =
     (int (fst (estimateTokens w cm)) > tokenLimit cm \<or> apiTotalTokens cm > tokenLimit cm)"

text \<open>
  The rounds of a history without its first message: each round is a user message with the
  messages up to the next user message or the end of the list.
\<close>

fun roundsSpec :: "Message list \<Rightarrow> (Message \<times> Message list) list" where
  "roundsSpec [] = []"
| "roundsSpec (m # ms) =
     (if isUser m then (m, takeWhile (\<lambda>x. \<not> isUser x) ms) # roundsSpec ms
      else roundsSpec ms)"

text \<open>The two messages that \<open>createSummary\<close> sends to the LLM for a round.\<close>

definition summaryRequest :: "world \<Rightarrow> Message list \<Rightarrow> nat \<Rightarrow> Message list" where
  "summaryRequest w msgs roundNum =
     [newMessage ''system''
        (Text ''You are an assistant skilled at summarizing Agent execution processes.''),
      newMessage ''user''
        (Text (summaryPrompt (summaryTranscript (stringify w) msgs roundNum)))]"

text \<open>
  The summary text of a round: what the LLM answers, or the raw transcript when the LLM
  call fails. \<open>c\<close> is the number of external calls made before this one.
\<close>

definition summarySpec :: "world \<Rightarrow> nat \<Rightarrow> Message list \<Rightarrow> nat \<Rightarrow> string" where
  "summarySpec w c msgs roundNum =
     (case generate w c (summaryRequest w msgs roundNum) of
        Inr response \<Rightarrow> resp_content response
      | Inl e \<Rightarrow> summaryTranscript (stringify w) msgs roundNum)"

text \<open>
  The rebuilt history after the first message: for each round its user message, followed
  by one summary message when the tail of the round is not empty and the summary text is
  not empty. Round \<open>i + 1\<close> is the head of the list; a round with a tail costs one LLM call.
\<close>

fun rebuiltSpec ::
  "world \<Rightarrow> nat \<Rightarrow> nat \<Rightarrow> (Message \<times> Message list) list \<Rightarrow> Message list" where
  "rebuiltSpec w c i [] = []"
| "rebuiltSpec w c i ((u, tail) # rs) =
     (if tail = [] then u # rebuiltSpec w c (i + 1) rs
      else if summarySpec w c tail (i + 1) = [] then u # rebuiltSpec w (c + 1) (i + 1) rs
      else u # summaryMessage (summarySpec w c tail (i + 1))
             # rebuiltSpec w (c + 1) (i + 1) rs)"

text \<open>
  The rounds as the loop of \<open>summarizeMessages\<close> cuts them, by the indices of the user
  messages, and the indices of the user messages from a position on.
\<close>

fun indexRounds :: "Message list \<Rightarrow> nat list \<Rightarrow> (Message \<times> Message list) list" where
  "indexRounds msgs [] = []"
| "indexRounds msgs (a # rest) =
     (msgs ! a, slice msgs (a + 1) (case rest of [] \<Rightarrow> length msgs | b # bs \<Rightarrow> b))
       # indexRounds msgs rest"

definition usersFrom :: "Message list \<Rightarrow> nat \<Rightarrow> nat list" where
  "usersFrom msgs k = filter (\<lambda>i. isUser (msgs ! i)) [k..<length msgs]"

definition nextUser :: "Message list \<Rightarrow> nat \<Rightarrow> nat" where
  "nextUser msgs k = (case usersFrom msgs k of [] \<Rightarrow> length msgs | b # bs \<Rightarrow> b)"

section \<open>The tool dispatch in the words of the specification\<close>

text \<open>
  The result of a tool call: a failed result that names the unknown tool; what \<open>execute\<close>
  of the resolved tool returns; or, when \<open>execute\<close> throws, a failed result that holds the
  name, the message and the stack of the thrown value.
\<close>

definition toolResultSpec :: "ContextManager \<Rightarrow> ToolCall \<Rightarrow> ToolResult" where
  \<open>toolResultSpec cm tc =
     (case toolDict cm (fn_name (tc_function tc)) of
        None \<Rightarrow> failedResult (''Unknown tool: '' @ fn_name (tc_function tc))
      | Some tool \<Rightarrow>
          (case execute tool (clock cm) (positionalArgs tool (arguments (tc_function tc))) of
             Inr result \<Rightarrow> result
           | Inl v \<Rightarrow>
               failedResult
                 (''Tool execution failed: '' @ thrownName v @ '': '' @ thrownMessage v @
                  ''\<newline>\<newline>Traceback:\<newline>'' @ thrownStack v)))\<close>

text \<open>
  The state after a tool call with the given result: the two events of the call, the
  external call when the tool was resolved, and the tool message appended to the history.
\<close>

definition recordedResult :: "ContextManager \<Rightarrow> ToolCall \<Rightarrow> ToolResult \<Rightarrow> ContextManager" where
  "recordedResult cm tc result =
     cm\<lparr>messages := messages cm @
          [toolMessage result (tc_id tc) (fn_name (tc_function tc))],
        events := events cm @
          [ToolCallStarted (tc_id tc) (fn_name (tc_function tc)) (arguments (tc_function tc)),
           ToolCallFinished (success result) (tc_id tc) (fn_name (tc_function tc)) result],
        clock := (if toolDict cm (fn_name (tc_function tc)) = None then clock cm
                  else Suc (clock cm))\<rparr>"

definition dispatchSpec :: "ContextManager \<Rightarrow> ToolCall \<Rightarrow> ContextManager" where
  "dispatchSpec cm tc = recordedResult cm tc (toolResultSpec cm tc)"

text \<open>
  The state after the call of a resolved tool whose \<open>execute\<close> ended as given: with the
  result that it returned, or with what the \<open>catch\<close> block makes of the value that it threw.
\<close>

definition outcomeOf :: "ContextManager \<Rightarrow> ToolCall \<Rightarrow> thrown + ToolResult \<Rightarrow> js_error + ContextManager" where
  "outcomeOf cm tc ended =
     (case ended of
        Inr result \<Rightarrow> Inr (recordedResult cm tc result)
      | Inl v \<Rightarrow>
          (case catchBlock v of
             Inl e \<Rightarrow> Inl e
           | Inr result \<Rightarrow> Inr (recordedResult cm tc result)))"

text \<open>
  The arguments of a call projected on the declared keys, in the order of their
  declaration, with \<open>undefined\<close> for a key that the arguments do not have.
\<close>

definition projectDeclared :: "js_object \<Rightarrow> js_object \<Rightarrow> js_value list" where
  "projectDeclared props callArgs =
     map (\<lambda>key. case map_of callArgs key of Some v \<Rightarrow> JsData v | None \<Rightarrow> JsUndefined)
       (map fst props)"

text \<open>The state of a step after the assistant message of an LLM response was appended.\<close>

definition afterResponse ::
  "world \<Rightarrow> nat \<Rightarrow> nat \<Rightarrow> ContextManager \<Rightarrow> LLMResponse \<Rightarrow> ContextManager" where
  "afterResponse w maxSteps step cm response =
     addAssistantMessage
       (updateApiTokens
          (emit (tick (emit (summarizeMessages w cm) (StepStarted (step + 1) maxSteps)))
             (LlmResponseReceived response))
          response)
       response"

text \<open>
  The operations that change the state of a \<open>ContextManager\<close>: its methods, and the
  emission of an event and the external call of the agent loop. \<open>contextAfter\<close> is the state
  after a sequence of them.
\<close>

datatype cm_op =
    AddUserMessage string
  | AddAssistantMessage LLMResponse
  | AddToolMessage ToolResult string string
  | UpdateApiTokens LLMResponse
  | SummarizeMessages
  | Emit event
  | Tick

fun applyOp :: "world \<Rightarrow> ContextManager \<Rightarrow> cm_op \<Rightarrow> ContextManager" where
  "applyOp w cm (AddUserMessage c) = addUserMessage cm c"
| "applyOp w cm (AddAssistantMessage response) = addAssistantMessage cm response"
| "applyOp w cm (AddToolMessage result toolCallId nm) = addToolMessage cm result toolCallId nm"
| "applyOp w cm (UpdateApiTokens response) = updateApiTokens cm response"
| "applyOp w cm SummarizeMessages = summarizeMessages w cm"
| "applyOp w cm (Emit ev) = emit cm ev"
| "applyOp w cm Tick = tick cm"

definition contextAfter :: "world \<Rightarrow> ContextManager \<Rightarrow> cm_op list \<Rightarrow> ContextManager" where
  "contextAfter w cm ops = foldl (applyOp w) cm ops"

section \<open>Example inputs\<close>

text \<open>
  An encoder for the examples: one token per character, and, as the \<open>cl100k_base\<close>
  encoder does with its default arguments, an exception on a text that holds the special
  token \<open><|endoftext|>\<close>. The example histories hold text content only, so that
  \<open>stringify\<close> is not applied in them.
\<close>

fun containsText :: "string \<Rightarrow> string \<Rightarrow> bool" where
  "containsText p [] = (p = [])"
| "containsText p (x # xs) = (prefix p (x # xs) \<or> containsText p xs)"

definition exampleEncoder :: "string \<Rightarrow> js_error + nat list" where
  "exampleEncoder s =
     (if containsText ''<|endoftext|>'' s
      then Inl (Error ''Error'' ''The text contains a special token that is not allowed'' None)
      else Inr (map of_char s))"

definition exampleResponse :: "string \<Rightarrow> ToolCall list option \<Rightarrow> LLMResponse" where
  "exampleResponse c tcs =
     \<lparr>resp_content = c, resp_thinking = None, resp_tool_calls = tcs, finish_reason = ''stop'',
      usage = None\<rparr>"

definition exampleWorld :: "(nat \<Rightarrow> Message list \<Rightarrow> js_error + LLMResponse) \<Rightarrow> world" where
  "exampleWorld g =
     \<lparr>generate = g, get_encoding = Inr exampleEncoder, stringify = (\<lambda>j. ''null'')\<rparr>"

text \<open>An LLM whose every request fails, and one that answers every request with no text.\<close>

definition failingLLM :: "nat \<Rightarrow> Message list \<Rightarrow> js_error + LLMResponse" where
  "failingLLM k msgs = Inl (Error ''Error'' ''connection refused'' None)"

definition silentLLM :: "nat \<Rightarrow> Message list \<Rightarrow> js_error + LLMResponse" where
  "silentLLM k msgs = Inr (exampleResponse [] None)"

definition exampleHistory :: "Message list" where
  "exampleHistory =
     [newMessage ''system'' (Text ''S''), newMessage ''user'' (Text ''hi''),
      newMessage ''assistant'' (Text ''hello'')]"

text \<open>A context with token limit 10 and the given tools and history.\<close>

definition exampleContext :: "Tool list \<Rightarrow> Message list \<Rightarrow> ContextManager" where
  "exampleContext ts msgs = (newContextManager ''S'' ts 10)\<lparr>messages := msgs\<rparr>"

definition exampleNoUser :: "Message list" where
  "exampleNoUser = [newMessage ''system'' (Text ''S''), newMessage ''assistant'' (Text ''hello'')]"

definition exampleShort :: "Message list" where
  "exampleShort = [newMessage ''system'' (Text ''S''), newMessage ''user'' (Text ''?'')]"

definition failingRequest :: "nat \<Rightarrow> js_error + LLMResponse" where
  "failingRequest k = Inl (Error ''Error'' ''connection refused'' None)"

text \<open>
  Tools and LLM clients for the examples: a tool call, a tool whose \<open>execute\<close> throws a
  \<open>TypeError\<close>, and (below) an LLM client whose \<open>generate\<close> is a request wrapped by
  \<open>asyncRetry\<close>.
\<close>

definition exampleToolCall :: "string \<Rightarrow> string \<Rightarrow> js_object \<Rightarrow> ToolCall" where
  "exampleToolCall i n args =
     \<lparr>tc_id = i, tc_type = ''function'', tc_function = \<lparr>fn_name = n, arguments = args\<rparr>\<rparr>"

definition throwingTool :: Tool where
  "throwingTool =
     \<lparr>tool_name = ''read_file'',
      properties = Some [(''path'', JObject [(''type'', JString ''string'')])],
      execute = (\<lambda>k args. Inl (thrownError
        (Error ''TypeError'' ''path must be a string'' (Some ''at read_file''))))\<rparr>"


definition schemaTool :: "string list \<Rightarrow> Tool" where
  "schemaTool keys =
     \<lparr>tool_name = ''write_file'',
      properties = Some (map (\<lambda>key. (key, JObject [(''type'', JString ''string'')])) keys),
      execute = (\<lambda>k args. Inr \<lparr>success = True, result_content = ''written'', error = None\<rparr>)\<rparr>"


definition roomyContext :: "Tool list \<Rightarrow> Message list \<Rightarrow> ContextManager" where
  "roomyContext ts msgs = (newContextManager ''S'' ts 1000)\<lparr>messages := msgs\<rparr>"

definition retryingLLM ::
  "RetryConfig \<Rightarrow> (nat \<Rightarrow> js_error + LLMResponse) \<Rightarrow> nat \<Rightarrow> Message list \<Rightarrow> js_error + LLMResponse" where
  "retryingLLM config request k msgs = outcome (asyncRetry config False request)"




section \<open>Properties of the retry policy\<close>

lemma calculateDelay_enabled:
  "calculateDelay (config\<lparr>enabled := b\<rparr>) attempt = calculateDelay config attempt"
  by (simp add: calculateDelay_def)

lemma asyncRetry_loop_enabled:
  "asyncRetry_loop (config\<lparr>enabled := b\<rparr>) hasOnRetry op attempt lastException tr =
   asyncRetry_loop config hasOnRetry op attempt lastException tr"
proof (induction config hasOnRetry op attempt lastException tr rule: asyncRetry_loop.induct)
  case (1 config hasOnRetry op attempt lastException tr)
  show ?case
  proof (cases "int attempt \<le> maxRetries config")
    case False
    then show ?thesis
      by (simp add: asyncRetry_loop.simps [of "config\<lparr>enabled := b\<rparr>"]
            asyncRetry_loop.simps [of config])
  next
    case le: True
    show ?thesis
    proof (cases "op (invocations tr)")
      case (Inr v)
      with le show ?thesis
        by (simp add: asyncRetry_loop.simps [of "config\<lparr>enabled := b\<rparr>"]
              asyncRetry_loop.simps [of config])
    next
      case (Inl exception)
      show ?thesis
      proof (cases "int attempt \<ge> maxRetries config")
        case True
        with le Inl show ?thesis
          by (simp add: asyncRetry_loop.simps [of "config\<lparr>enabled := b\<rparr>"]
                asyncRetry_loop.simps [of config])
      next
        case False
        with le Inl "1.IH" [OF le Inl False refl] show ?thesis
          by (simp add: asyncRetry_loop.simps [of "config\<lparr>enabled := b\<rparr>" _ _ attempt]
                asyncRetry_loop.simps [of config _ _ attempt] calculateDelay_enabled Let_def)
      qed
    qed
  qed
qed

text \<open>
  When every invocation of the operation throws and \<open>maxRetries\<close> is the natural number
  \<open>n\<close>, the loop entered at \<open>attempt \<le> n\<close> makes the remaining \<open>n - attempt + 1\<close>
  invocations, sleeps the delays of the attempts before the last one, and throws
  \<open>RetryExhaustedError\<close> with the error of the last invocation and \<open>n + 1\<close>.
\<close>

lemma asyncRetry_loop_exhausted:
  assumes fails: "\<And>k. isl (op k)" and n: "maxRetries config = int n"
  shows "attempt \<le> n \<Longrightarrow>
     outcome (asyncRetry_loop config hasOnRetry op attempt lastException tr) =
       Inl (RetryExhaustedError (projl (op (invocations tr + (n - attempt)))) (n + 1)) \<and>
     invocations (asyncRetry_loop config hasOnRetry op attempt lastException tr) =
       invocations tr + (n - attempt) + 1 \<and>
     waits (asyncRetry_loop config hasOnRetry op attempt lastException tr) =
       waits tr @ map (calculateDelay config) [attempt..<n]"
proof (induction "n - attempt" arbitrary: attempt lastException tr)
  case 0
  then have eq: "attempt = n" by simp
  obtain e where e: "op (invocations tr) = Inl e"
    using fails [of "invocations tr"] by (cases "op (invocations tr)") auto
  show ?case
    unfolding eq using e n by (simp add: asyncRetry_loop.simps [of config _ _ n])
next
  case (Suc d)
  then have lt: "attempt < n" and d: "d = n - Suc attempt" by simp_all
  obtain e where e: "op (invocations tr) = Inl e"
    using fails [of "invocations tr"] by (cases "op (invocations tr)") auto
  have le: "Suc attempt \<le> n" using lt by simp
  note IH = Suc.hyps(1) [OF d le]
  show ?case
    using e n lt IH
    by (simp add: asyncRetry_loop.simps [of config _ _ attempt] Let_def upt_conv_Cons)
qed

text \<open>With a negative \<open>maxRetries\<close> the loop body never runs and nothing is invoked.\<close>

lemma asyncRetry_negative:
  "maxRetries config < 0 \<Longrightarrow>
   outcome (asyncRetry config hasOnRetry op) = Inl (Error ''Error'' ''Unknown error'' None) \<and>
   invocations (asyncRetry config hasOnRetry op) = 0"
  by (simp add: asyncRetry_def asyncRetry_loop.simps)

text \<open>
  Claim C5. The delay before retry \<open>i\<close> is \<open>min (initialDelay * exponentialBase ^ i) maxDelay\<close>;
  with \<open>initialDelay = 1\<close>, \<open>exponentialBase = 2\<close> and \<open>maxDelay = 60\<close> the delays of the
  attempts 0 to 5 are 1, 2, 4, 8, 16, 32 and the delay of attempt 6 is 60.
\<close>

theorem calculateDelay_backoff:
  "calculateDelay config i =
     min (initialDelay config * exponentialBase config ^ i) (maxDelay config) \<and>
   map (calculateDelay (config\<lparr>initialDelay := 1, exponentialBase := 2, maxDelay := 60\<rparr>))
     [0, 1, 2, 3, 4, 5, 6] = [1, 2, 4, 8, 16, 32, 60]"
  by (simp add: calculateDelay_def)

text \<open>
  Claim C10. The function wrapped by \<open>asyncRetry\<close> does the same with \<open>enabled\<close> true and
  with \<open>enabled\<close> false: the same outcome, the same number of invocations, the same delays
  and the same calls of the callback.
\<close>

theorem asyncRetry_ignores_enabled:
  "asyncRetry (config\<lparr>enabled := True\<rparr>) hasOnRetry op =
   asyncRetry (config\<lparr>enabled := False\<rparr>) hasOnRetry op"
  by (simp add: asyncRetry_def asyncRetry_loop_enabled)

section \<open>Properties of the summarization\<close>

lemma usersFrom_end: "length msgs \<le> k \<Longrightarrow> usersFrom msgs k = []"
  by (simp add: usersFrom_def)

lemma usersFrom_step:
  "k < length msgs \<Longrightarrow>
   usersFrom msgs k = (if isUser (msgs ! k) then k # usersFrom msgs (Suc k) else usersFrom msgs (Suc k))"
  by (simp add: usersFrom_def upt_conv_Cons)

lemma usersFrom_ge: "i \<in> set (usersFrom msgs k) \<Longrightarrow> k \<le> i \<and> i < length msgs"
  by (auto simp: usersFrom_def)

lemma nextUser_ge: "k \<le> length msgs \<Longrightarrow> k \<le> nextUser msgs k"
  using usersFrom_ge [of _ msgs k]
  by (auto simp: nextUser_def split: list.splits)

lemma slice_to_nextUser:
  "k \<le> length msgs \<Longrightarrow>
   slice msgs k (nextUser msgs k) = takeWhile (\<lambda>x. \<not> isUser x) (drop k msgs)"
proof (induction "length msgs - k" arbitrary: k)
  case 0
  then show ?case by (simp add: slice_def)
next
  case (Suc d)
  then have lt: "k < length msgs" by simp
  have dr: "drop k msgs = msgs ! k # drop (Suc k) msgs"
    using lt by (simp add: Cons_nth_drop_Suc)
  show ?case
  proof (cases "isUser (msgs ! k)")
    case True
    then show ?thesis
      using lt dr by (simp add: slice_def nextUser_def usersFrom_step)
  next
    case False
    have nu: "nextUser msgs k = nextUser msgs (Suc k)"
      using False lt by (simp add: nextUser_def usersFrom_step)
    have ge: "Suc k \<le> nextUser msgs (Suc k)"
      using lt nextUser_ge [of "Suc k" msgs] by simp
    have IH: "slice msgs (Suc k) (nextUser msgs (Suc k)) =
        takeWhile (\<lambda>x. \<not> isUser x) (drop (Suc k) msgs)"
      using Suc.hyps(1) [of "Suc k"] Suc.hyps(2) lt by simp
    have "nextUser msgs (Suc k) - k = Suc (nextUser msgs (Suc k) - Suc k)"
      using ge by simp
    then show ?thesis
      using False IH dr by (simp add: slice_def nu)
  qed
qed

lemma indexRounds_usersFrom:
  "k \<le> length msgs \<Longrightarrow> indexRounds msgs (usersFrom msgs k) = roundsSpec (drop k msgs)"
proof (induction "length msgs - k" arbitrary: k)
  case 0
  then show ?case by (simp add: usersFrom_end)
next
  case (Suc d)
  then have lt: "k < length msgs" by simp
  have dr: "drop k msgs = msgs ! k # drop (Suc k) msgs"
    using lt by (simp add: Cons_nth_drop_Suc)
  have IH: "indexRounds msgs (usersFrom msgs (Suc k)) = roundsSpec (drop (Suc k) msgs)"
    using Suc.hyps(1) [of "Suc k"] Suc.hyps(2) lt by simp
  show ?case
  proof (cases "isUser (msgs ! k)")
    case True
    have "slice msgs (Suc k) (nextUser msgs (Suc k)) =
        takeWhile (\<lambda>x. \<not> isUser x) (drop (Suc k) msgs)"
      using lt by (simp add: slice_to_nextUser)
    then show ?thesis
      using True lt dr IH by (simp add: usersFrom_step nextUser_def)
  next
    case False
    then show ?thesis
      using lt dr IH by (simp add: usersFrom_step)
  qed
qed

lemma userIndices_usersFrom: "userIndices msgs = usersFrom msgs 1"
proof -
  have "filter (\<lambda>index. role (msgs ! index) = ''user'' \<and> index > 0) [0..<length msgs] =
        filter (\<lambda>i. isUser (msgs ! i)) [1..<length msgs]"
  proof (cases msgs)
    case Nil
    then show ?thesis by simp
  next
    case (Cons m ms)
    have "[0..<length msgs] = 0 # [1..<length msgs]"
      using Cons upt_conv_Cons [of 0 "length msgs"] by simp
    then show ?thesis
      by (auto simp: isUser_def intro: filter_cong)
  qed
  then show ?thesis by (simp add: userIndices_def usersFrom_def)
qed

lemma indexRounds_userIndices:
  "indexRounds msgs (userIndices msgs) = roundsSpec (tl msgs)"
proof (cases msgs)
  case Nil
  then show ?thesis by (simp add: userIndices_usersFrom usersFrom_end)
next
  case (Cons m ms)
  then show ?thesis
    using indexRounds_usersFrom [of 1 msgs]
    by (simp add: userIndices_usersFrom drop_Suc)
qed

lemma estimateTokens_state:
  "snd (estimateTokens w cm) = cm \<or>
   (\<exists>e. snd (estimateTokens w cm) = emit cm (TokenEstimationFallbacked e))"
  by (auto simp: estimateTokens_def split: sum.splits)

lemma estimateTokens_fields [simp]:
  "messages (snd (estimateTokens w cm)) = messages cm"
  "clock (snd (estimateTokens w cm)) = clock cm"
  "tokenLimit (snd (estimateTokens w cm)) = tokenLimit cm"
  "apiTotalTokens (snd (estimateTokens w cm)) = apiTotalTokens cm"
  "skipNextTokenCheck (snd (estimateTokens w cm)) = skipNextTokenCheck cm"
  "tools (snd (estimateTokens w cm)) = tools cm"
  using estimateTokens_state [of w cm] by (auto simp: emit_def)

lemma createSummary_text:
  "msgs \<noteq> [] \<Longrightarrow> fst (createSummary w cm msgs k) = summarySpec w (clock cm) msgs k"
  by (simp add: createSummary_def summarySpec_def summaryRequest_def Let_def split: sum.splits)

lemma createSummary_fields:
  "msgs \<noteq> [] \<Longrightarrow> clock (snd (createSummary w cm msgs k)) = Suc (clock cm)"
  "messages (snd (createSummary w cm msgs k)) = messages cm"
  "tokenLimit (snd (createSummary w cm msgs k)) = tokenLimit cm"
  "apiTotalTokens (snd (createSummary w cm msgs k)) = apiTotalTokens cm"
  "skipNextTokenCheck (snd (createSummary w cm msgs k)) = skipNextTokenCheck cm"
  "tools (snd (createSummary w cm msgs k)) = tools cm"
  by (simp_all add: createSummary_def Let_def emit_def tick_def split: sum.splits)

lemma summarizeLoop_spec:
  "summarizeLoop w uis i (nm, sc, cm) = (nm', sc', cm') \<Longrightarrow>
   nm' = nm @ rebuiltSpec w (clock cm) i (indexRounds (messages cm) uis) \<and>
   messages cm' = messages cm \<and> tokenLimit cm' = tokenLimit cm \<and>
   apiTotalTokens cm' = apiTotalTokens cm \<and> tools cm' = tools cm"
proof (induction uis arbitrary: i nm sc cm)
  case Nil
  then show ?case by simp
next
  case (Cons userIdx rest)
  define nextUserIdx where
    "nextUserIdx = (case rest of [] \<Rightarrow> length (messages cm) | n # ns \<Rightarrow> n)"
  define ex where "ex = slice (messages cm) (userIdx + 1) nextUserIdx"
  show ?case
  proof (cases "ex = []")
    case True
    then have "summarizeLoop w rest (i + 1) (nm @ [messages cm ! userIdx], sc, cm) = (nm', sc', cm')"
      using Cons.prems by (simp add: ex_def nextUserIdx_def Let_def)
    from Cons.IH [OF this] True show ?thesis
      by (simp add: ex_def nextUserIdx_def)
  next
    case False
    obtain summaryText cm1 where cs: "createSummary w cm ex (i + 1) = (summaryText, cm1)"
      by (cases "createSummary w cm ex (i + 1)")
    have stext: "summaryText = summarySpec w (clock cm) ex (i + 1)"
      using createSummary_text [OF False, of w cm "i + 1"] cs by simp
    have f1: "clock cm1 = Suc (clock cm)" "messages cm1 = messages cm"
      "tokenLimit cm1 = tokenLimit cm" "apiTotalTokens cm1 = apiTotalTokens cm"
      "tools cm1 = tools cm"
      using createSummary_fields [where msgs = ex and w = w and cm = cm and k = "i + 1"] False cs by simp_all
    show ?thesis
    proof (cases "summaryText = []")
      case True
      then have "summarizeLoop w rest (i + 1) (nm @ [messages cm ! userIdx], sc, cm1) =
          (nm', sc', cm')"
        using Cons.prems False cs by (simp add: ex_def nextUserIdx_def Let_def)
      from Cons.IH [OF this] False True stext f1 show ?thesis
        by (simp add: ex_def nextUserIdx_def)
    next
      case nonempty: False
      then have "summarizeLoop w rest (i + 1)
          ((nm @ [messages cm ! userIdx]) @ [summaryMessage summaryText], sc + 1, cm1) =
          (nm', sc', cm')"
        using Cons.prems False cs by (simp add: ex_def nextUserIdx_def Let_def)
      from Cons.IH [OF this] False nonempty stext f1 show ?thesis
        by (simp add: ex_def nextUserIdx_def)
    qed
  qed
qed



lemma roundsSpec_users: "map fst (roundsSpec xs) = filter isUser xs"
  by (induction xs) simp_all

lemma indexRounds_Nil: "(indexRounds msgs uis = []) = (uis = [])"
  by (cases uis) simp_all

lemma userIndices_Nil:
  "(userIndices msgs = []) = (\<forall>m \<in> set (tl msgs). role m \<noteq> ''user'')"
proof -
  have "(userIndices msgs = []) = (map fst (roundsSpec (tl msgs)) = [])"
    using indexRounds_userIndices [of msgs] indexRounds_Nil [of msgs "userIndices msgs"]
    by simp
  also have "\<dots> = (\<forall>m \<in> set (tl msgs). role m \<noteq> ''user'')"
    by (simp add: roundsSpec_users filter_empty_conv isUser_def)
  finally show ?thesis .
qed

lemma subseq_rebuiltSpec: "subseq (map fst rs) (rebuiltSpec w c i rs)"
proof (induction rs arbitrary: c i)
  case Nil
  then show ?case by simp
next
  case (Cons r rs)
  obtain u tl where r: "r = (u, tl)" by (cases r)
  show ?case
    using Cons.IH [of c "i + 1"] Cons.IH [of "c + 1" "i + 1"]
    by (auto simp: r intro: list_emb_Cons)
qed

lemma summarizeChecked_skip:
  "\<not> shouldSummarize w cm \<Longrightarrow> summarizeChecked w cm = snd (estimateTokens w cm)"
proof -
  assume n: "\<not> shouldSummarize w cm"
  obtain est cmE where e: "estimateTokens w cm = (est, cmE)"
    by (cases "estimateTokens w cm")
  have f: "tokenLimit cmE = tokenLimit cm" "apiTotalTokens cmE = apiTotalTokens cm"
    using estimateTokens_fields [of w cm] e by simp_all
  show ?thesis
    using n e f by (simp add: summarizeChecked_def shouldSummarize_def Let_def)
qed

lemma summarizeChecked_insufficient:
  assumes "shouldSummarize w cm" and "userIndices (messages cm) = []"
  shows "summarizeChecked w cm =
     emit (emit (snd (estimateTokens w cm))
             (SummarizeMessagesStarted (fst (estimateTokens w cm)) (apiTotalTokens cm)
                (tokenLimit cm)))
          (SummarizeMessagesFinished_failed ''Insufficient messages, cannot summarize.'')"
proof -
  obtain est cmE where e: "estimateTokens w cm = (est, cmE)"
    by (cases "estimateTokens w cm")
  have f: "messages cmE = messages cm" "tokenLimit cmE = tokenLimit cm"
    "apiTotalTokens cmE = apiTotalTokens cm"
    using estimateTokens_fields [of w cm] e by simp_all
  show ?thesis
    using assms e f
    by (simp add: summarizeChecked_def shouldSummarize_def Let_def emit_def)
qed

lemma emit_fields [simp]:
  "messages (emit cm ev) = messages cm"
  "clock (emit cm ev) = clock cm"
  "tokenLimit (emit cm ev) = tokenLimit cm"
  "apiTotalTokens (emit cm ev) = apiTotalTokens cm"
  "skipNextTokenCheck (emit cm ev) = skipNextTokenCheck cm"
  "tools (emit cm ev) = tools cm"
  by (simp_all add: emit_def)

lemma summarizeChecked_rebuild_eq:
  assumes "shouldSummarize w cm" and "userIndices (messages cm) \<noteq> []"
  shows "summarizeChecked w cm =
     (let est = fst (estimateTokens w cm);
          cm1 = emit (snd (estimateTokens w cm))
                  (SummarizeMessagesStarted est (apiTotalTokens cm) (tokenLimit cm));
          r = summarizeLoop w (userIndices (messages cm)) 0 ([messages cm ! 0], 0, cm1);
          cm3 = (snd (snd r))\<lparr>messages := fst r, skipNextTokenCheck := True\<rparr>
      in emit (snd (estimateTokens w cm3))
           (SummarizeMessagesFinished_ok
              ''Summary completed and API token count will update on next LLM call.''
              est (fst (estimateTokens w cm3)) (length (userIndices (messages cm)))
              (fst (snd r))))"
  using assms
  by (auto simp add: summarizeChecked_def shouldSummarize_def Let_def case_prod_beta)

lemma summarizeChecked_rebuild:
  assumes "shouldSummarize w cm" and "userIndices (messages cm) \<noteq> []"
  shows "messages (summarizeChecked w cm) =
           messages cm ! 0 # rebuiltSpec w (clock cm) 0 (roundsSpec (tl (messages cm))) \<and>
         skipNextTokenCheck (summarizeChecked w cm)"
proof -
  define cm1 where "cm1 = emit (snd (estimateTokens w cm))
     (SummarizeMessagesStarted (fst (estimateTokens w cm)) (apiTotalTokens cm) (tokenLimit cm))"
  have f1: "messages cm1 = messages cm" "clock cm1 = clock cm"
    by (simp_all add: cm1_def)
  obtain nm sc cm2 where
    l: "summarizeLoop w (userIndices (messages cm)) 0 ([messages cm ! 0], 0, cm1) = (nm, sc, cm2)"
    by (cases "summarizeLoop w (userIndices (messages cm)) 0 ([messages cm ! 0], 0, cm1)")
  have nm: "nm = messages cm ! 0 # rebuiltSpec w (clock cm) 0 (roundsSpec (tl (messages cm)))"
    using summarizeLoop_spec [OF l] f1 by (simp add: indexRounds_userIndices)
  show ?thesis
    unfolding summarizeChecked_rebuild_eq [OF assms] Let_def cm1_def [symmetric] l
    by (simp add: nm)
qed

lemma summaryTranscript_nonempty: "summaryTranscript str msgs k \<noteq> []"
  by (simp add: summaryTranscript_def)

lemma summarySpec_failure:
  "generate w c (summaryRequest w tail k) = Inl e \<Longrightarrow>
   summarySpec w c tail k = summaryTranscript (stringify w) tail k"
  by (simp add: summarySpec_def)

lemma createSummary_events:
  "set (events cm) \<subseteq> set (events (snd (createSummary w cm msgs k)))"
  by (auto simp: createSummary_def Let_def emit_def tick_def split: sum.splits)

lemma summarizeLoop_events:
  "summarizeLoop w uis i (nm, sc, cm) = (nm', sc', cm') \<Longrightarrow>
   set (events cm) \<subseteq> set (events cm')"
proof (induction uis arbitrary: i nm sc cm)
  case Nil
  then show ?case by simp
next
  case (Cons userIdx rest)
  define ex where "ex = slice (messages cm) (userIdx + 1)
     (case rest of [] \<Rightarrow> length (messages cm) | n # ns \<Rightarrow> n)"
  obtain summaryText cm1 where cs: "createSummary w cm ex (i + 1) = (summaryText, cm1)"
    by (cases "createSummary w cm ex (i + 1)")
  have sub: "set (events cm) \<subseteq> set (events cm1)"
    using createSummary_events [of cm w ex "i + 1"] cs by simp
  consider (a) "summarizeLoop w rest (i + 1) (nm @ [messages cm ! userIdx], sc, cm) = (nm', sc', cm')"
    | (b) "summarizeLoop w rest (i + 1) (nm @ [messages cm ! userIdx], sc, cm1) = (nm', sc', cm')"
    | (c) "summarizeLoop w rest (i + 1)
          ((nm @ [messages cm ! userIdx]) @ [summaryMessage summaryText], sc + 1, cm1) =
          (nm', sc', cm')"
    using Cons.prems cs by (simp add: ex_def Let_def split: if_splits)
  then show ?case
  proof cases
    case a
    from Cons.IH [OF a] show ?thesis .
  next
    case b
    from Cons.IH [OF b] sub show ?thesis by blast
  next
    case c
    from Cons.IH [OF c] sub show ?thesis by blast
  qed
qed

lemma estimateTokens_events:
  "set (events cm) \<subseteq> set (events (snd (estimateTokens w cm)))"
  using estimateTokens_state [of w cm] by (auto simp: emit_def)

lemma summarizeChecked_started:
  assumes "shouldSummarize w cm"
  shows "SummarizeMessagesStarted (fst (estimateTokens w cm)) (apiTotalTokens cm) (tokenLimit cm)
           \<in> set (events (summarizeChecked w cm))"
proof (cases "userIndices (messages cm) = []")
  case True
  show ?thesis
    unfolding summarizeChecked_insufficient [OF assms True] by (simp add: emit_def)
next
  case False
  define cm1 where "cm1 = emit (snd (estimateTokens w cm))
     (SummarizeMessagesStarted (fst (estimateTokens w cm)) (apiTotalTokens cm) (tokenLimit cm))"
  have in1: "SummarizeMessagesStarted (fst (estimateTokens w cm)) (apiTotalTokens cm)
      (tokenLimit cm) \<in> set (events cm1)"
    by (simp add: cm1_def emit_def)
  obtain nm sc cm2 where
    l: "summarizeLoop w (userIndices (messages cm)) 0 ([messages cm ! 0], 0, cm1) = (nm, sc, cm2)"
    by (cases "summarizeLoop w (userIndices (messages cm)) 0 ([messages cm ! 0], 0, cm1)")
  have in2: "SummarizeMessagesStarted (fst (estimateTokens w cm)) (apiTotalTokens cm)
      (tokenLimit cm) \<in> set (events cm2)"
    using summarizeLoop_events [OF l] in1 by blast
  define cm3 where "cm3 = cm2\<lparr>messages := nm, skipNextTokenCheck := True\<rparr>"
  have in3: "SummarizeMessagesStarted (fst (estimateTokens w cm)) (apiTotalTokens cm)
      (tokenLimit cm) \<in> set (events (snd (estimateTokens w cm3)))"
    using estimateTokens_events [of cm3 w] in2 by (auto simp: cm3_def)
  show ?thesis
    unfolding summarizeChecked_rebuild_eq [OF assms False] Let_def cm1_def [symmetric] l
    using in3 by (simp add: cm3_def emit_def)
qed

text \<open>
  Claim C1, as amended. When \<open>summarizeMessages\<close> triggers (the flag is clear and the
  trigger condition holds) and a user message exists after the first message, the rebuilt
  history is the first message followed, for each round in order, by the round's user
  message and then by exactly one summary message when the tail of the round is not empty
  and the summary text is not empty; a round is left bare when its tail is empty or its
  summary text is empty. When the LLM call for a summary fails, the summary text is the raw
  transcript, which is never empty, so the round then gets its summary message.
\<close>

theorem summarize_rebuilds_rounds:
  assumes "\<not> skipNextTokenCheck cm" and "shouldSummarize w cm"
    and "\<exists>m \<in> set (tl (messages cm)). role m = ''user''"
  shows "messages (summarizeMessages w cm) =
           hd (messages cm) # rebuiltSpec w (clock cm) 0 (roundsSpec (tl (messages cm))) \<and>
         (\<forall>c tail k e. generate w c (summaryRequest w tail k) = Inl e \<longrightarrow>
            summarySpec w c tail k = summaryTranscript (stringify w) tail k \<and>
            summarySpec w c tail k \<noteq> [])"
proof -
  have ui: "userIndices (messages cm) \<noteq> []"
    using assms(3) by (simp add: userIndices_Nil)
  then have ne: "messages cm \<noteq> []"
    by (auto simp: userIndices_def)
  have "messages (summarizeMessages w cm) =
      messages cm ! 0 # rebuiltSpec w (clock cm) 0 (roundsSpec (tl (messages cm)))"
    using summarizeChecked_rebuild [OF assms(2) ui] assms(1)
    by (simp add: summarizeMessages_def)
  moreover have "messages cm ! 0 = hd (messages cm)"
    using ne by (simp add: hd_conv_nth)
  ultimately show ?thesis
    by (simp add: summarySpec_failure summaryTranscript_nonempty)
qed

text \<open>
  Claim C2. After \<open>summarizeMessages\<close>, the messages that had role user before the call are
  still in the history, unchanged and in the same relative order: they form a subsequence
  of the new history.
\<close>

theorem summarize_keeps_user_messages:
  "subseq (filter (\<lambda>m. role m = ''user'') (messages cm)) (messages (summarizeMessages w cm))"
proof -
  consider (flag) "skipNextTokenCheck cm"
    | (under) "\<not> skipNextTokenCheck cm" "\<not> shouldSummarize w cm"
    | (nouser) "\<not> skipNextTokenCheck cm" "shouldSummarize w cm" "userIndices (messages cm) = []"
    | (rebuild) "\<not> skipNextTokenCheck cm" "shouldSummarize w cm" "userIndices (messages cm) \<noteq> []"
    by blast
  then show ?thesis
  proof cases
    case flag
    then show ?thesis by (simp add: summarizeMessages_def)
  next
    case under
    then show ?thesis by (simp add: summarizeMessages_def summarizeChecked_skip)
  next
    case nouser
    then show ?thesis
      by (simp add: summarizeMessages_def summarizeChecked_insufficient)
  next
    case rebuild
    obtain m ms where ms: "messages cm = m # ms"
      using rebuild(3) by (cases "messages cm") (auto simp: userIndices_def)
    have new: "messages (summarizeMessages w cm) = m # rebuiltSpec w (clock cm) 0 (roundsSpec ms)"
      using summarizeChecked_rebuild [OF rebuild(2,3)] rebuild(1)
      by (simp add: summarizeMessages_def ms)
    have "subseq (filter isUser ms) (rebuiltSpec w (clock cm) 0 (roundsSpec ms))"
      using subseq_rebuiltSpec [of "roundsSpec ms" w "clock cm" 0]
      by (simp add: roundsSpec_users)
    then have "subseq (filter isUser (m # ms)) (m # rebuiltSpec w (clock cm) 0 (roundsSpec ms))"
      by (auto intro: list_emb_Cons)
    then show ?thesis
      using new ms by (simp add: isUser_def [abs_def])
  qed
qed

text \<open>
  The flag is set only in states whose history has a user message after the first
  message: a pass sets it only when it rebuilds the history, and the rebuilt history keeps
  the user messages.
\<close>

lemma userIndices_append:
  "userIndices msgs \<noteq> [] \<Longrightarrow> userIndices (msgs @ [m]) \<noteq> []"
proof -
  assume a: "userIndices msgs \<noteq> []"
  then have "msgs \<noteq> []" by (auto simp: userIndices_def)
  then have "tl (msgs @ [m]) = tl msgs @ [m]" by simp
  then show ?thesis
    using a by (auto simp: userIndices_Nil)
qed

lemma rebuiltSpec_users:
  "rs \<noteq> [] \<Longrightarrow> \<forall>r \<in> set rs. isUser (fst r) \<Longrightarrow>
   \<exists>m \<in> set (rebuiltSpec w c i rs). role m = ''user''"
proof -
  assume ne: "rs \<noteq> []" and us: "\<forall>r \<in> set rs. isUser (fst r)"
  obtain u t rest where rs: "rs = (u, t) # rest"
    using ne by (cases rs) auto
  have "isUser u" using us rs by simp
  moreover have "u \<in> set (rebuiltSpec w c i rs)"
    by (simp add: rs)
  ultimately show ?thesis
    by (auto simp: isUser_def)
qed

lemma roundsSpec_all_users: "\<forall>r \<in> set (roundsSpec xs). isUser (fst r)"
proof -
  have "set (map fst (roundsSpec xs)) \<subseteq> {m. isUser m}"
    by (auto simp: roundsSpec_users)
  then show ?thesis by auto
qed

lemma summarize_flag_users:
  assumes inv: "skipNextTokenCheck cm \<longrightarrow> userIndices (messages cm) \<noteq> []"
    and after: "skipNextTokenCheck (summarizeMessages w cm)"
  shows "userIndices (messages (summarizeMessages w cm)) \<noteq> []"
proof -
  have clear: "\<not> skipNextTokenCheck cm"
    using after by (auto simp: summarizeMessages_def split: if_splits)
  have trig: "shouldSummarize w cm"
  proof (rule ccontr)
    assume "\<not> shouldSummarize w cm"
    from summarizeChecked_skip [OF this] after clear
    show False by (simp add: summarizeMessages_def)
  qed
  have ui: "userIndices (messages cm) \<noteq> []"
  proof
    assume "userIndices (messages cm) = []"
    from summarizeChecked_insufficient [OF trig this] after clear
    show False by (simp add: summarizeMessages_def)
  qed
  have new: "messages (summarizeMessages w cm) =
      messages cm ! 0 # rebuiltSpec w (clock cm) 0 (roundsSpec (tl (messages cm)))"
    using summarizeChecked_rebuild [OF trig ui] clear by (simp add: summarizeMessages_def)
  have "roundsSpec (tl (messages cm)) \<noteq> []"
    using ui indexRounds_userIndices [of "messages cm"]
      indexRounds_Nil [of "messages cm" "userIndices (messages cm)"] by simp
  from rebuiltSpec_users [OF this roundsSpec_all_users]
  show ?thesis
    by (simp add: userIndices_Nil new)
qed

lemma applyOp_flag:
  assumes "skipNextTokenCheck cm \<longrightarrow> userIndices (messages cm) \<noteq> []"
  shows "skipNextTokenCheck (applyOp w cm op) \<longrightarrow> userIndices (messages (applyOp w cm op)) \<noteq> []"
proof (cases op)
  case (AddUserMessage c)
  then show ?thesis using assms by (simp add: addUserMessage_def userIndices_append)
next
  case (AddAssistantMessage response)
  then show ?thesis using assms by (simp add: addAssistantMessage_def userIndices_append)
next
  case (AddToolMessage result toolCallId nm)
  then show ?thesis using assms by (simp add: addToolMessage_def userIndices_append)
next
  case (UpdateApiTokens response)
  then show ?thesis using assms by (simp add: updateApiTokens_def split: option.splits)
next
  case SummarizeMessages
  then show ?thesis using summarize_flag_users [of cm w] assms by simp
next
  case (Emit ev)
  then show ?thesis using assms by simp
next
  case Tick
  then show ?thesis using assms by (simp add: tick_def)
qed

lemma contextAfter_flag:
  "skipNextTokenCheck cm \<longrightarrow> userIndices (messages cm) \<noteq> [] \<Longrightarrow>
   skipNextTokenCheck (contextAfter w cm ops) \<longrightarrow>
   userIndices (messages (contextAfter w cm ops)) \<noteq> []"
  unfolding contextAfter_def
proof (induction ops arbitrary: cm)
  case Nil
  then show ?case by simp
next
  case (Cons op ops)
  from Cons.IH [OF applyOp_flag [OF Cons.prems, of w op]] show ?case by simp
qed

text \<open>
  Claim C6. In a state that a sequence of operations makes of a new context manager, when
  the history has no message with role user after the first message and the trigger
  condition holds, \<open>summarizeMessages\<close> emits
  \<open>summarizeMessagesFinished\<close> with \<open>ok = false\<close> after \<open>summarizeMessagesStarted\<close>, and
  changes nothing else: the message list is the same, no LLM request is made and the flag
  stays clear.
\<close>

theorem summarize_without_user_message:
  assumes "cm = contextAfter w (newContextManager systemPrompt ts limit) ops"
    and "shouldSummarize w cm"
    and "\<forall>m \<in> set (tl (messages cm)). role m \<noteq> ''user''"
  shows "summarizeMessages w cm =
           emit (emit (snd (estimateTokens w cm))
                  (SummarizeMessagesStarted (fst (estimateTokens w cm)) (apiTotalTokens cm)
                     (tokenLimit cm)))
             (SummarizeMessagesFinished_failed ''Insufficient messages, cannot summarize.'') \<and>
         messages (summarizeMessages w cm) = messages cm \<and>
         clock (summarizeMessages w cm) = clock cm \<and>
         \<not> skipNextTokenCheck (summarizeMessages w cm)"
proof -
  have ui: "userIndices (messages cm) = []"
    using assms(3) by (simp add: userIndices_Nil)
  then have clear: "\<not> skipNextTokenCheck cm"
    using contextAfter_flag [of "newContextManager systemPrompt ts limit" w ops] assms(1)
    by (simp add: newContextManager_def)
  show ?thesis
    using summarizeChecked_insufficient [OF assms(2) ui] clear
    by (simp add: summarizeMessages_def)
qed

text \<open>
  Claim C7. A pass that rebuilds the history sets the flag. A call that finds the flag set
  only clears it, whatever the token estimates are: no event is emitted and the history is
  not touched. The call after that one performs the check: it emits
  \<open>summarizeMessagesStarted\<close> when the trigger condition holds, and returns after the
  estimate otherwise.
\<close>

theorem suppression_flag_one_shot:
  "(\<not> skipNextTokenCheck cm \<and> shouldSummarize w cm \<and>
      (\<exists>m \<in> set (tl (messages cm)). role m = ''user'') \<longrightarrow>
      skipNextTokenCheck (summarizeMessages w cm)) \<and>
   (skipNextTokenCheck cm \<longrightarrow>
      summarizeMessages w cm = cm\<lparr>skipNextTokenCheck := False\<rparr> \<and>
      \<not> skipNextTokenCheck (summarizeMessages w cm) \<and>
      (shouldSummarize w (summarizeMessages w cm) \<longrightarrow>
         SummarizeMessagesStarted (fst (estimateTokens w (summarizeMessages w cm)))
           (apiTotalTokens cm) (tokenLimit cm)
           \<in> set (events (summarizeMessages w (summarizeMessages w cm)))) \<and>
      (\<not> shouldSummarize w (summarizeMessages w cm) \<longrightarrow>
         summarizeMessages w (summarizeMessages w cm) =
           snd (estimateTokens w (summarizeMessages w cm))))"
proof (intro conjI impI)
  assume a: "\<not> skipNextTokenCheck cm \<and> shouldSummarize w cm \<and>
      (\<exists>m \<in> set (tl (messages cm)). role m = ''user'')"
  then have ui: "userIndices (messages cm) \<noteq> []"
    by (simp add: userIndices_Nil)
  show "skipNextTokenCheck (summarizeMessages w cm)"
    using summarizeChecked_rebuild [OF _ ui, of w] a by (simp add: summarizeMessages_def)
next
  assume s: "skipNextTokenCheck cm"
  show eq: "summarizeMessages w cm = cm\<lparr>skipNextTokenCheck := False\<rparr>"
    using s by (simp add: summarizeMessages_def)
  show "\<not> skipNextTokenCheck (summarizeMessages w cm)"
    by (simp add: eq)
  have next_call: "summarizeMessages w (summarizeMessages w cm) =
      summarizeChecked w (summarizeMessages w cm)"
    unfolding eq by (simp add: summarizeMessages_def)
  {
    assume t: "shouldSummarize w (summarizeMessages w cm)"
    show "SummarizeMessagesStarted (fst (estimateTokens w (summarizeMessages w cm)))
           (apiTotalTokens cm) (tokenLimit cm)
           \<in> set (events (summarizeMessages w (summarizeMessages w cm)))"
      using summarizeChecked_started [OF t] by (simp add: next_call) (simp add: eq)
  }
  {
    assume t: "\<not> shouldSummarize w (summarizeMessages w cm)"
    show "summarizeMessages w (summarizeMessages w cm) =
           snd (estimateTokens w (summarizeMessages w cm))"
      using summarizeChecked_skip [OF t] by (simp add: next_call)
  }
qed

lemmas example_defs = exampleEncoder_def exampleResponse_def exampleWorld_def
  exampleHistory_def exampleContext_def newContextManager_def newMessage_def

lemmas tiktoken_defs = estimateTokens_def tiktokenCount_def messageTokens_def contentTokens_def
  thinkingTokens_def toolCallsTokens_def

lemma example_estimate:
  "fst (estimateTokens (exampleWorld g) ((exampleContext ts exampleHistory)\<lparr>apiTotalTokens := a, skipNextTokenCheck := b\<rparr>)) = 20"
  by (simp add: example_defs tiktoken_defs)

lemma example_estimate0:
  "fst (estimateTokens (exampleWorld g) (exampleContext ts exampleHistory)) = 20"
  by (simp add: example_defs tiktoken_defs)

lemma example_trigger: "shouldSummarize (exampleWorld g) (exampleContext ts exampleHistory)"
  by (simp add: shouldSummarize_def example_estimate0) (simp add: example_defs)

lemma example_rounds:
  "roundsSpec (tl (messages (exampleContext ts exampleHistory))) =
     [(newMessage ''user'' (Text ''hi''), [newMessage ''assistant'' (Text ''hello'')])]"
  by (simp add: example_defs isUser_def)

lemma example_has_user:
  "\<exists>m \<in> set (tl (messages (exampleContext ts exampleHistory))). role m = ''user''"
  by (simp add: example_defs)

lemma example_flag: "\<not> skipNextTokenCheck (exampleContext ts msgs)"
  by (simp add: example_defs)

lemma example_head:
  "messages (exampleContext ts exampleHistory) ! 0 = newMessage ''system'' (Text ''S'')"
  "hd (messages (exampleContext ts exampleHistory)) = newMessage ''system'' (Text ''S'')"
  by (simp_all add: example_defs)

lemma failing_summary:
  "summarySpec (exampleWorld failingLLM) c [newMessage ''assistant'' (Text ''hello'')] (Suc 0) =
     ''Round 1 execution process:\<newline>\<newline>Assistant: hello\<newline>''"
  by (simp add: summarySpec_def exampleWorld_def failingLLM_def summaryTranscript_def
        transcriptLine_def contentText_def newMessage_def showNat.simps digit_char_def)

text \<open>
  The theorem at the example history with an LLM whose requests fail: the round's tail is
  replaced by a summary message that holds the raw transcript.
\<close>

theorem summarize_rebuilds_rounds_witness:
  "\<not> skipNextTokenCheck (exampleContext [] exampleHistory) \<and>
   shouldSummarize (exampleWorld failingLLM) (exampleContext [] exampleHistory) \<and>
   (\<exists>m \<in> set (tl (messages (exampleContext [] exampleHistory))). role m = ''user'') \<and>
   messages (summarizeMessages (exampleWorld failingLLM) (exampleContext [] exampleHistory)) =
     [newMessage ''system'' (Text ''S''), newMessage ''user'' (Text ''hi''),
      summaryMessage ''Round 1 execution process:\<newline>\<newline>Assistant: hello\<newline>'']"
  using summarize_rebuilds_rounds [of "exampleContext [] exampleHistory" "exampleWorld failingLLM"]
    example_flag [of "[]" exampleHistory] example_trigger [of failingLLM "[]"]
    example_has_user [of "[]"]
  by (simp add: example_rounds example_head failing_summary)

text \<open>
  Claim C1 as stated fails when the LLM answers the summary request with an empty text: the
  example history has one round with a non-empty tail, and the rebuilt history holds no
  summary message for it.
\<close>

theorem summarize_drops_round_counterexample:
  "roundsSpec (tl (messages (exampleContext [] exampleHistory))) =
     [(newMessage ''user'' (Text ''hi''), [newMessage ''assistant'' (Text ''hello'')])] \<and>
   messages (summarizeMessages (exampleWorld silentLLM) (exampleContext [] exampleHistory)) =
     [newMessage ''system'' (Text ''S''), newMessage ''user'' (Text ''hi'')]"
proof -
  have ui: "userIndices (messages (exampleContext [] exampleHistory)) \<noteq> []"
    using example_has_user [of "[]"] by (simp add: userIndices_Nil)
  have rs: "summarySpec (exampleWorld silentLLM) c tail k = []" for c tail k
    by (simp add: summarySpec_def exampleWorld_def silentLLM_def exampleResponse_def)
  show ?thesis
    using summarizeChecked_rebuild [OF example_trigger ui, of silentLLM] example_flag [of "[]" exampleHistory]
    by (simp add: summarizeMessages_def example_rounds rs example_head)
qed

lemma noUser_estimate:
  "estimateTokens (exampleWorld g) (exampleContext ts exampleNoUser) =
     (14, exampleContext ts exampleNoUser)"
  by (simp add: example_defs tiktoken_defs exampleNoUser_def)

lemma noUser_trigger: "shouldSummarize (exampleWorld g) (exampleContext ts exampleNoUser)"
  by (simp add: shouldSummarize_def noUser_estimate) (simp add: example_defs)

lemma noUser_users:
  "\<forall>m \<in> set (tl (messages (exampleContext ts exampleNoUser))). role m \<noteq> ''user''"
  by (simp add: example_defs exampleNoUser_def)

lemma noUser_built:
  "exampleContext [] exampleNoUser =
     contextAfter w (newContextManager ''S'' [] 10)
       [AddAssistantMessage (exampleResponse ''hello'' None)]"
  by (simp add: contextAfter_def exampleContext_def exampleNoUser_def addAssistantMessage_def
        newContextManager_def newMessage_def exampleResponse_def)

text \<open>
  The theorem at the history of a system message and an assistant message, made by
  \<open>addAssistantMessage\<close> on a new context manager.
\<close>

theorem summarize_without_user_message_witness:
  "shouldSummarize (exampleWorld failingLLM) (exampleContext [] exampleNoUser) \<and>
   map role (tl (messages (exampleContext [] exampleNoUser))) = [''assistant''] \<and>
   messages (summarizeMessages (exampleWorld failingLLM) (exampleContext [] exampleNoUser)) =
     exampleNoUser \<and>
   events (summarizeMessages (exampleWorld failingLLM) (exampleContext [] exampleNoUser)) =
     [SummarizeMessagesStarted 14 0 10,
      SummarizeMessagesFinished_failed ''Insufficient messages, cannot summarize.'']"
  using summarize_without_user_message [OF noUser_built, of "exampleWorld failingLLM"]
    noUser_trigger [of failingLLM "[]"] noUser_users [of "[]"]
  by (simp add: noUser_estimate) (simp add: example_defs exampleNoUser_def emit_def)

text \<open>
  The theorem at the example history: the pass sets the flag; with the flag set and both
  estimates (20 and 500) above the limit 10 the next call only clears the flag, and the
  call after it starts a summarization.
\<close>

theorem suppression_flag_one_shot_witness:
  "skipNextTokenCheck (summarizeMessages (exampleWorld failingLLM) (exampleContext [] exampleHistory)) \<and>
   shouldSummarize (exampleWorld failingLLM)
     ((exampleContext [] exampleHistory)\<lparr>apiTotalTokens := 500, skipNextTokenCheck := True\<rparr>) \<and>
   summarizeMessages (exampleWorld failingLLM)
     ((exampleContext [] exampleHistory)\<lparr>apiTotalTokens := 500, skipNextTokenCheck := True\<rparr>) =
     (exampleContext [] exampleHistory)\<lparr>apiTotalTokens := 500, skipNextTokenCheck := False\<rparr> \<and>
   SummarizeMessagesStarted 20 500 10 \<in> set (events
     (summarizeMessages (exampleWorld failingLLM)
       (summarizeMessages (exampleWorld failingLLM)
         ((exampleContext [] exampleHistory)\<lparr>apiTotalTokens := 500, skipNextTokenCheck := True\<rparr>))))"
proof -
  let ?w = "exampleWorld failingLLM"
  let ?cm = "exampleContext [] exampleHistory"
  let ?fl = "?cm\<lparr>apiTotalTokens := 500, skipNextTokenCheck := True\<rparr>"
  have t: "shouldSummarize ?w (?cm\<lparr>apiTotalTokens := 500, skipNextTokenCheck := b\<rparr>)" for b
    by (simp add: shouldSummarize_def example_estimate) (simp add: example_defs)
  have lim: "tokenLimit ?cm = 10" by (simp add: example_defs)
  have a: "skipNextTokenCheck (summarizeMessages ?w ?cm)"
    using suppression_flag_one_shot [of ?cm ?w] example_flag [of "[]" exampleHistory]
      example_trigger [of failingLLM "[]"] example_has_user [of "[]"]
    by blast
  have b: "summarizeMessages ?w ?fl = ?cm\<lparr>apiTotalTokens := 500, skipNextTokenCheck := False\<rparr>"
    using suppression_flag_one_shot [of ?fl ?w] by simp
  have c: "SummarizeMessagesStarted 20 500 10 \<in> set (events (summarizeMessages ?w (summarizeMessages ?w ?fl)))"
    using suppression_flag_one_shot [of ?fl ?w] t [of False]
    by (simp add: b example_estimate lim)
  show ?thesis
    using a b c t [of True] by simp
qed

section \<open>Properties of the token estimate\<close>

lemma blockTokens_ge: "blockTokens enc str bs t = Inr t' \<Longrightarrow> t \<le> t'"
proof (induction bs arbitrary: t)
  case Nil
  then show ?case by simp
next
  case (Cons b bs)
  then show ?case
    by (cases "enc (str (JObject b))") (auto dest: Cons.IH)
qed

lemma messageTokens_ge: "messageTokens enc str msg t = Inr t' \<Longrightarrow> t \<le> t'"
proof -
  assume a: "messageTokens enc str msg t = Inr t'"
  obtain t1 where t1: "contentTokens enc str (content msg) t = Inr t1"
    using a by (auto simp: messageTokens_def split: sum.splits)
  obtain t2 where t2: "thinkingTokens enc (thinking msg) t1 = Inr t2"
    using a t1 by (auto simp: messageTokens_def split: sum.splits)
  obtain t3 where t3: "toolCallsTokens enc str (tool_calls msg) t2 = Inr t3"
    using a t1 t2 by (auto simp: messageTokens_def split: sum.splits)
  have "t \<le> t1"
    using t1 by (auto simp: contentTokens_def split: content.splits sum.splits dest: blockTokens_ge)
  moreover have "t1 \<le> t2"
    using t2 by (auto simp: thinkingTokens_def split: option.splits sum.splits if_splits)
  moreover have "t2 \<le> t3"
    using t3 by (auto simp: toolCallsTokens_def split: option.splits sum.splits)
  moreover have "t' = t3 + 4"
    using a t1 t2 t3 by (simp add: messageTokens_def)
  ultimately show ?thesis by simp
qed

lemma tokensLoop_append:
  "tokensLoop enc str (xs @ ys) t =
     (case tokensLoop enc str xs t of Inl e \<Rightarrow> Inl e | Inr t' \<Rightarrow> tokensLoop enc str ys t')"
  by (induction xs arbitrary: t) (simp_all split: sum.splits)

lemma tiktokenCount_append_ok:
  assumes "tiktokenCount w (msgs @ [m]) = Inr n'"
  shows "\<exists>n. tiktokenCount w msgs = Inr n \<and> n \<le> n'"
proof -
  obtain enc where enc: "get_encoding w = Inr enc"
    using assms by (auto simp: tiktokenCount_def split: sum.splits)
  have l: "tokensLoop enc (stringify w) (msgs @ [m]) 0 = Inr n'"
    using assms enc by (simp add: tiktokenCount_def)
  then obtain n where n: "tokensLoop enc (stringify w) msgs 0 = Inr n"
    by (auto simp: tokensLoop_append split: sum.splits)
  have "messageTokens enc (stringify w) m n = Inr n'"
    using l n by (auto simp: tokensLoop_append split: sum.splits)
  then have "n \<le> n'" by (rule messageTokens_ge)
  then show ?thesis
    using n enc by (simp add: tiktokenCount_def)
qed

lemma tiktokenCount_append_fails:
  "tiktokenCount w msgs = Inl e \<Longrightarrow> tiktokenCount w (msgs @ [m]) = Inl e"
  by (auto simp: tiktokenCount_def tokensLoop_append split: sum.splits)

lemma fallback_append:
  "estimateTokensFallback w cm \<le> estimateTokensFallback w (cm\<lparr>messages := messages cm @ [m]\<rparr>)"
  by (simp add: estimateTokensFallback_def div_le_mono)

lemma fallback_events [simp]:
  "estimateTokensFallback w (emit cm ev) = estimateTokensFallback w cm"
  by (simp add: estimateTokensFallback_def emit_def)

text \<open>
  Claim C9, as amended. Appending a message does not decrease \<open>estimateTokens\<close> when both
  evaluations take the same path: when the tokenizer accepts the history with the new
  message (both on the tiktoken path), and when the tokenizer already fails on the history
  before the append (both on the fallback path).
\<close>

theorem estimateTokens_monotone_same_path:
  "(\<not> isl (tiktokenCount w (messages cm @ [m])) \<longrightarrow>
      fst (estimateTokens w cm) \<le> fst (estimateTokens w (cm\<lparr>messages := messages cm @ [m]\<rparr>))) \<and>
   (isl (tiktokenCount w (messages cm)) \<longrightarrow>
      fst (estimateTokens w cm) \<le> fst (estimateTokens w (cm\<lparr>messages := messages cm @ [m]\<rparr>)))"
proof (intro conjI impI)
  assume "\<not> isl (tiktokenCount w (messages cm @ [m]))"
  then obtain n' where n': "tiktokenCount w (messages cm @ [m]) = Inr n'"
    by (cases "tiktokenCount w (messages cm @ [m])") auto
  from tiktokenCount_append_ok [OF n'] obtain n where
    "tiktokenCount w (messages cm) = Inr n" "n \<le> n'" by blast
  then show "fst (estimateTokens w cm) \<le> fst (estimateTokens w (cm\<lparr>messages := messages cm @ [m]\<rparr>))"
    using n' by (simp add: estimateTokens_def)
next
  assume "isl (tiktokenCount w (messages cm))"
  then obtain e where e: "tiktokenCount w (messages cm) = Inl e"
    by (cases "tiktokenCount w (messages cm)") auto
  note e' = tiktokenCount_append_fails [OF e, of m]
  show "fst (estimateTokens w cm) \<le> fst (estimateTokens w (cm\<lparr>messages := messages cm @ [m]\<rparr>))"
    using e e' fallback_append [of w cm m]
    by (simp add: estimateTokens_def)
qed

lemma example_appended_estimate:
  "fst (estimateTokens (exampleWorld g)
     ((exampleContext ts exampleHistory)\<lparr>messages := messages (exampleContext ts exampleHistory) @
        [newMessage ''user'' (Text ''ok'')]\<rparr>)) = 26"
  by (simp add: example_defs tiktoken_defs)

text \<open>
  The theorem at the example history: on the tiktoken path the estimate goes from 20 to
  26, and with a tokenizer that cannot be loaded the fallback estimate does not decrease.
\<close>

theorem estimateTokens_monotone_same_path_witness:
  "fst (estimateTokens (exampleWorld failingLLM) (exampleContext [] exampleHistory)) = 20 \<and>
   fst (estimateTokens (exampleWorld failingLLM) (addUserMessage (exampleContext [] exampleHistory) ''ok'')) = 26 \<and>
   fst (estimateTokens ((exampleWorld failingLLM)\<lparr>get_encoding := Inl (Error ''Error'' ''offline'' None)\<rparr>)
     (exampleContext [] exampleHistory)) \<le>
   fst (estimateTokens ((exampleWorld failingLLM)\<lparr>get_encoding := Inl (Error ''Error'' ''offline'' None)\<rparr>)
     (addUserMessage (exampleContext [] exampleHistory) ''ok''))"
proof -
  let ?cm = "exampleContext [] exampleHistory"
  let ?m = "newMessage ''user'' (Text ''ok'')"
  let ?off = "(exampleWorld failingLLM)\<lparr>get_encoding := Inl (Error ''Error'' ''offline'' None)\<rparr>"
  have ok: "\<not> isl (tiktokenCount (exampleWorld failingLLM) (messages ?cm @ [?m]))"
    by (simp add: example_defs tiktoken_defs)
  have off: "isl (tiktokenCount ?off (messages ?cm))"
    by (simp add: exampleWorld_def tiktokenCount_def)
  have a: "fst (estimateTokens (exampleWorld failingLLM) ?cm) \<le>
      fst (estimateTokens (exampleWorld failingLLM) (?cm\<lparr>messages := messages ?cm @ [?m]\<rparr>))"
    using estimateTokens_monotone_same_path [of "exampleWorld failingLLM" ?cm ?m] ok by blast
  have b: "fst (estimateTokens ?off ?cm) \<le>
      fst (estimateTokens ?off (?cm\<lparr>messages := messages ?cm @ [?m]\<rparr>))"
    using estimateTokens_monotone_same_path [of ?off ?cm ?m] off by blast
  show ?thesis
    using a b by (simp add: addUserMessage_def example_estimate0 example_appended_estimate)
qed

text \<open>
  Claim C9 as stated fails when the append moves the estimate from the tiktoken path to
  the fallback path. The example history is estimated at 20 tokens (any encoder gives at
  least the overhead of 12); after a user message with the text \<open><|endoftext|>\<close> is
  added the encoder throws, and the fallback estimate of the four messages, 21 characters,
  is 8.
\<close>

theorem estimateTokens_decreases_counterexample:
  "fst (estimateTokens (exampleWorld failingLLM) (exampleContext [] exampleHistory)) = 20 \<and>
   fst (estimateTokens (exampleWorld failingLLM)
     (addUserMessage (exampleContext [] exampleHistory) ''<|endoftext|>'')) = 8"
  by (simp add: example_estimate0)
     (simp add: example_defs tiktoken_defs addUserMessage_def estimateTokensFallback_def
        messageChars_def emit_def)

section \<open>Properties of the agent loop\<close>

lemma toolDict_emit [simp]: "toolDict (emit cm ev) = toolDict cm"
  by (simp add: toolDict_def)

lemma tick_fields [simp]:
  "messages (tick cm) = messages cm"
  "tools (tick cm) = tools cm"
  "events (tick cm) = events cm"
  by (simp_all add: tick_def)

lemma updateApiTokens_messages [simp]:
  "messages (updateApiTokens cm response) = messages cm"
  by (simp add: updateApiTokens_def split: option.splits)

lemma runLoop_next:
  "step < maxSteps \<Longrightarrow> runStep w maxSteps step cm = Inr (Next cm') \<Longrightarrow>
   runLoop w maxSteps step cm = runLoop w maxSteps (step + 1) cm'"
  by (simp add: runLoop.simps [of w maxSteps step cm])

lemma runLoop_done:
  "step < maxSteps \<Longrightarrow> runStep w maxSteps step cm = Inr (Done cm') \<Longrightarrow>
   runLoop w maxSteps step cm = Inr cm'"
  by (simp add: runLoop.simps [of w maxSteps step cm])

lemma runStep_retry_exhausted:
  assumes "generate w (clock (summarizeMessages w cm)) (messages (summarizeMessages w cm)) =
      Inl (RetryExhaustedError lastException attempts)"
  shows "runStep w maxSteps step cm =
     Inr (Done (emit (tick (emit (summarizeMessages w cm) (StepStarted (step + 1) maxSteps)))
       (RunFinished_failed (''LLM call failed after '' @ showNat attempts @ '' retries.'')
          (RetryExhaustedError lastException attempts))))"
  using assms by (simp add: runStep_def Let_def)

text \<open>
  Claim C4. With \<open>maxRetries = n\<close> and an operation that fails on every attempt, the wrapped
  function invokes the operation exactly \<open>n + 1\<close> times and throws \<open>RetryExhaustedError\<close>
  with the error of the last invocation and the attempt count \<open>n + 1\<close>. When the LLM call
  of a step of \<open>Agent.run\<close> ends with this error, the run ends in that step with the event
  \<open>runFinished\<close>, \<open>ok = false\<close>, whose message and error report \<open>n + 1\<close>.
\<close>

theorem retry_exhausted_ends_run:
  assumes "maxRetries config = int n" and "\<forall>k. isl (op k)"
  shows "invocations (asyncRetry config hasOnRetry op) = n + 1 \<and>
     outcome (asyncRetry config hasOnRetry op) =
       Inl (RetryExhaustedError (projl (op n)) (n + 1)) \<and>
     (\<forall>w maxSteps step cm.
        step < maxSteps \<and>
        generate w (clock (summarizeMessages w cm)) (messages (summarizeMessages w cm)) =
          outcome (asyncRetry config hasOnRetry op) \<longrightarrow>
        runLoop w maxSteps step cm =
          Inr (emit (tick (emit (summarizeMessages w cm) (StepStarted (step + 1) maxSteps)))
            (RunFinished_failed (''LLM call failed after '' @ showNat (n + 1) @ '' retries.'')
               (RetryExhaustedError (projl (op n)) (n + 1)))))"
proof -
  have fails: "\<And>k. isl (op k)" using assms(2) by simp
  have r: "outcome (asyncRetry config hasOnRetry op) =
       Inl (RetryExhaustedError (projl (op n)) (n + 1))"
    "invocations (asyncRetry config hasOnRetry op) = n + 1"
    using asyncRetry_loop_exhausted [OF fails assms(1), where attempt = 0
        and hasOnRetry = hasOnRetry and lastException = None]
    by (simp_all add: asyncRetry_def)
  show ?thesis
    using r by (auto simp: runStep_retry_exhausted runLoop_done)
qed

lemma short_estimate:
  "estimateTokens (exampleWorld g) (exampleContext ts exampleShort) =
     (10, exampleContext ts exampleShort)"
  by (simp add: example_defs tiktoken_defs exampleShort_def)

lemma short_summarize:
  "summarizeMessages (exampleWorld g) (exampleContext ts exampleShort) =
     exampleContext ts exampleShort"
proof -
  have "\<not> shouldSummarize (exampleWorld g) (exampleContext ts exampleShort)"
    by (simp add: shouldSummarize_def short_estimate) (simp add: example_defs)
  then show ?thesis
    using example_flag [of ts exampleShort]
    by (simp add: summarizeMessages_def summarizeChecked_skip short_estimate)
qed

text \<open>
  The theorem at \<open>maxRetries = 3\<close> and a request that always fails: four invocations, and
  the run ends with \<open>LLM call failed after 4 retries.\<close>
\<close>

theorem retry_exhausted_ends_run_witness:
  "invocations (asyncRetry defaultRetryConfig False failingRequest) = 4 \<and>
   outcome (asyncRetry defaultRetryConfig False failingRequest) =
     Inl (RetryExhaustedError (Error ''Error'' ''connection refused'' None) 4) \<and>
   run (exampleWorld (retryingLLM defaultRetryConfig failingRequest)) 5
       (exampleContext [] exampleShort) =
     Inr ((exampleContext [] exampleShort)
       \<lparr>events := [StepStarted 1 5,
           RunFinished_failed ''LLM call failed after 4 retries.''
             (RetryExhaustedError (Error ''Error'' ''connection refused'' None) 4)],
        clock := 1\<rparr>)"
proof -
  let ?w = "exampleWorld (retryingLLM defaultRetryConfig failingRequest)"
  let ?cm = "exampleContext [] exampleShort"
  have m: "maxRetries defaultRetryConfig = int 3"
    by (simp add: defaultRetryConfig_def)
  have f: "\<forall>k. isl (failingRequest k)"
    by (simp add: failingRequest_def)
  note t = retry_exhausted_ends_run [OF m f, of False]
  have g: "generate ?w (clock (summarizeMessages ?w ?cm)) (messages (summarizeMessages ?w ?cm)) =
      outcome (asyncRetry defaultRetryConfig False failingRequest)"
    by (simp add: exampleWorld_def retryingLLM_def)
  have "runLoop ?w 5 0 ?cm =
      Inr (emit (tick (emit (summarizeMessages ?w ?cm) (StepStarted (0 + 1) 5)))
        (RunFinished_failed (''LLM call failed after '' @ showNat (3 + 1) @ '' retries.'')
           (RetryExhaustedError (projl (failingRequest 3)) (3 + 1))))"
    using t g by simp
  then have "run ?w 5 ?cm =
      Inr (?cm\<lparr>events := [StepStarted 1 5,
           RunFinished_failed ''LLM call failed after 4 retries.''
             (RetryExhaustedError (Error ''Error'' ''connection refused'' None) 4)],
        clock := 1\<rparr>)"
    by (simp add: run_def short_summarize failingRequest_def showNat.simps digit_char_def)
       (simp add: emit_def tick_def example_defs)
  moreover have "projl (failingRequest 3) = Error ''Error'' ''connection refused'' None"
    by (simp add: failingRequest_def)
  moreover have "invocations (asyncRetry defaultRetryConfig False failingRequest) = 3 + 1"
    "outcome (asyncRetry defaultRetryConfig False failingRequest) =
       Inl (RetryExhaustedError (projl (failingRequest 3)) (3 + 1))"
    using t by blast+
  ultimately show ?thesis
    by simp
qed

subsection \<open>The tool dispatch\<close>

lemma executeTool_emit [simp]: "executeTool (emit cm ev) tc = executeTool cm tc"
  by (simp add: executeTool_def cong: option.case_cong sum.case_cong)

lemma dispatchToolCall_eq:
  "dispatchToolCall cm tc =
     (case executeTool cm tc of
        Inl e \<Rightarrow> Inl e
      | Inr result \<Rightarrow> Inr (recordedResult cm tc result))"
proof (cases "executeTool cm tc")
  case (Inl e)
  then show ?thesis by (simp add: dispatchToolCall_def Let_def)
next
  case (Inr result)
  have "addToolMessage
      (emit (if toolDict cm (fn_name (tc_function tc)) = None
             then emit cm (ToolCallStarted (tc_id tc) (fn_name (tc_function tc))
                    (arguments (tc_function tc)))
             else tick (emit cm (ToolCallStarted (tc_id tc) (fn_name (tc_function tc))
                    (arguments (tc_function tc)))))
         (ToolCallFinished (success result) (tc_id tc) (fn_name (tc_function tc)) result))
      result (tc_id tc) (fn_name (tc_function tc)) = recordedResult cm tc result"
    by (simp add: recordedResult_def addToolMessage_def emit_def tick_def)
  then show ?thesis
    using Inr by (simp add: dispatchToolCall_def Let_def)
qed




lemma dispatchSpec_tools [simp]: "tools (dispatchSpec cm tc) = tools cm"
  by (simp add: dispatchSpec_def recordedResult_def)


lemma summarizeMessages_tools [simp]: "tools (summarizeMessages w cm) = tools cm"
proof -
  consider (flag) "skipNextTokenCheck cm"
    | (under) "\<not> skipNextTokenCheck cm" "\<not> shouldSummarize w cm"
    | (nouser) "\<not> skipNextTokenCheck cm" "shouldSummarize w cm" "userIndices (messages cm) = []"
    | (rebuild) "\<not> skipNextTokenCheck cm" "shouldSummarize w cm" "userIndices (messages cm) \<noteq> []"
    by blast
  then show ?thesis
  proof cases
    case flag
    then show ?thesis by (simp add: summarizeMessages_def)
  next
    case under
    then show ?thesis by (simp add: summarizeMessages_def summarizeChecked_skip)
  next
    case nouser
    then show ?thesis by (simp add: summarizeMessages_def summarizeChecked_insufficient)
  next
    case rebuild
    define cm1 where "cm1 = emit (snd (estimateTokens w cm))
       (SummarizeMessagesStarted (fst (estimateTokens w cm)) (apiTotalTokens cm) (tokenLimit cm))"
    obtain nm sc cm2 where
      l: "summarizeLoop w (userIndices (messages cm)) 0 ([messages cm ! 0], 0, cm1) = (nm, sc, cm2)"
      by (cases "summarizeLoop w (userIndices (messages cm)) 0 ([messages cm ! 0], 0, cm1)")
    have "tools cm2 = tools cm"
      using summarizeLoop_spec [OF l] by (simp add: cm1_def)
    then show ?thesis
      using rebuild(1)
      unfolding summarizeMessages_def summarizeChecked_rebuild_eq [OF rebuild(2,3)] Let_def
        cm1_def [symmetric] l
      by simp
  qed
qed

lemma afterResponse_tools [simp]: "tools (afterResponse w maxSteps step cm response) = tools cm"
  by (simp add: afterResponse_def addAssistantMessage_def updateApiTokens_def
        split: option.splits)

lemma runStep_dispatch:
  assumes "generate w (clock (summarizeMessages w cm)) (messages (summarizeMessages w cm)) =
      Inr response"
    and "resp_tool_calls response = Some tcs" and "tcs \<noteq> []"
  shows "runStep w maxSteps step cm =
     (case dispatchToolCalls (afterResponse w maxSteps step cm response) tcs of
        Inl e \<Rightarrow> Inl e
      | Inr cm' \<Rightarrow> Inr (Next cm'))"
  using assms by (simp add: runStep_def Let_def afterResponse_def)


lemma ownEntries_plain:
  "\<forall>kv \<in> set obj. \<not> isArrayIndex (fst kv) \<Longrightarrow> ownEntries obj = obj"
proof -
  assume a: "\<forall>kv \<in> set obj. \<not> isArrayIndex (fst kv)"
  then have "filter (\<lambda>kv. isArrayIndex (fst kv)) obj = []"
    by (simp add: filter_empty_conv)
  moreover have "filter (\<lambda>kv. \<not> isArrayIndex (fst kv)) obj = obj"
    using a by (simp add: filter_id_conv)
  ultimately show ?thesis by (simp add: ownEntries_def)
qed

lemma getProperty_plain:
  "key \<in> set objectPrototypeKeys \<longrightarrow> key \<in> fst ` set callArgs \<Longrightarrow>
   getProperty callArgs key =
     (case map_of callArgs key of Some v \<Rightarrow> JsData v | None \<Rightarrow> JsUndefined)"
  by (auto simp: getProperty_def map_of_eq_None_iff split: option.splits)

lemma positionalArgs_declared:
  assumes "properties tool = Some props"
    and "\<forall>key \<in> set (map fst props). \<not> isArrayIndex key \<and>
           (key \<in> set objectPrototypeKeys \<longrightarrow> key \<in> fst ` set callArgs)"
  shows "positionalArgs tool callArgs = projectDeclared props callArgs"
proof -
  have "ownEntries props = props"
    using assms(2) by (intro ownEntries_plain) auto
  then have "objectKeys props = map fst props"
    by (simp add: objectKeys_def)
  then show ?thesis
    using assms by (simp add: positionalArgs_def projectDeclared_def getProperty_plain)
qed

lemma dispatchToolCall_resolved:
  "toolDict cm (fn_name (tc_function tc)) = Some tool \<Longrightarrow>
   dispatchToolCall cm tc =
     outcomeOf cm tc
       (execute tool (clock cm) (positionalArgs tool (arguments (tc_function tc))))"
  by (simp add: dispatchToolCall_eq executeTool_def outcomeOf_def Let_def split: sum.splits)

lemma isArrayIndex_examples:
  "\<not> isArrayIndex ''path''" "\<not> isArrayIndex ''content''" "isArrayIndex ''0''"
  "\<not> isArrayIndex ''constructor''"
  by (simp_all add: isArrayIndex_def indexValue_def digitValue_def)

text \<open>
  Claim C8, as amended. The positional arguments that the dispatch passes to \<open>execute\<close> of
  the resolved tool are \<open>callArgs[key]\<close> for the keys of \<open>Object.keys(properties)\<close>, in the
  order of \<open>Object.keys\<close>, when the schema declares \<open>properties\<close>, and
  \<open>Object.values(callArgs)\<close> when it declares none. When no declared key is an array index,
  and every declared key that names a member of \<open>Object.prototype\<close> is present in the
  arguments, this list is the projection of the arguments on the declared keys in the order
  of their declaration, with \<open>undefined\<close> for a missing key. The dispatch of the tool calls
  of a response does this for each call in turn.
\<close>

theorem positional_arguments:
  "(toolDict cm (fn_name (tc_function tc)) = Some tool \<and> properties tool = Some props \<and>
    (\<forall>key \<in> set (map fst props). \<not> isArrayIndex key \<and>
       (key \<in> set objectPrototypeKeys \<longrightarrow> key \<in> fst ` set (arguments (tc_function tc)))) \<longrightarrow>
      positionalArgs tool (arguments (tc_function tc)) =
        projectDeclared props (arguments (tc_function tc)) \<and>
      dispatchToolCall cm tc =
        outcomeOf cm tc
          (execute tool (clock cm) (projectDeclared props (arguments (tc_function tc))))) \<and>
   (toolDict cm (fn_name (tc_function tc)) = Some tool \<and> properties tool = Some props \<longrightarrow>
      dispatchToolCall cm tc =
        outcomeOf cm tc
          (execute tool (clock cm)
             (map (\<lambda>key. getProperty (arguments (tc_function tc)) key) (objectKeys props)))) \<and>
   (toolDict cm (fn_name (tc_function tc)) = Some tool \<and> properties tool = None \<longrightarrow>
      dispatchToolCall cm tc =
        outcomeOf cm tc
          (execute tool (clock cm) (map JsData (objectValues (arguments (tc_function tc)))))) \<and>
   dispatchToolCalls cm (tc # rest) =
     (case dispatchToolCall cm tc of
        Inl e \<Rightarrow> Inl e
      | Inr cm1 \<Rightarrow> dispatchToolCalls cm1 rest) \<and>
   (generate w (clock (summarizeMessages w cm)) (messages (summarizeMessages w cm)) =
      Inr response \<and> resp_tool_calls response = Some tcs \<and> tcs \<noteq> [] \<longrightarrow>
      runStep w maxSteps step cm =
        (case dispatchToolCalls (afterResponse w maxSteps step cm response) tcs of
           Inl e \<Rightarrow> Inl e
         | Inr cm' \<Rightarrow> Inr (Next cm')))"
proof (intro conjI impI)
  assume a: "toolDict cm (fn_name (tc_function tc)) = Some tool \<and> properties tool = Some props \<and>
    (\<forall>key \<in> set (map fst props). \<not> isArrayIndex key \<and>
       (key \<in> set objectPrototypeKeys \<longrightarrow> key \<in> fst ` set (arguments (tc_function tc))))"
  then show p: "positionalArgs tool (arguments (tc_function tc)) =
        projectDeclared props (arguments (tc_function tc))"
    using positionalArgs_declared [of tool props "arguments (tc_function tc)"] by blast
  show "dispatchToolCall cm tc =
        outcomeOf cm tc
          (execute tool (clock cm) (projectDeclared props (arguments (tc_function tc))))"
    using a dispatchToolCall_resolved [of cm tc tool] by (simp add: p)
next
  assume "toolDict cm (fn_name (tc_function tc)) = Some tool \<and> properties tool = Some props"
  then show "dispatchToolCall cm tc =
        outcomeOf cm tc
          (execute tool (clock cm)
             (map (\<lambda>key. getProperty (arguments (tc_function tc)) key) (objectKeys props)))"
    using dispatchToolCall_resolved [of cm tc tool] by (simp add: positionalArgs_def)
next
  assume "toolDict cm (fn_name (tc_function tc)) = Some tool \<and> properties tool = None"
  then show "dispatchToolCall cm tc =
        outcomeOf cm tc
          (execute tool (clock cm) (map JsData (objectValues (arguments (tc_function tc)))))"
    using dispatchToolCall_resolved [of cm tc tool] by (simp add: positionalArgs_def)
next
  show "dispatchToolCalls cm (tc # rest) =
     (case dispatchToolCall cm tc of
        Inl e \<Rightarrow> Inl e
      | Inr cm1 \<Rightarrow> dispatchToolCalls cm1 rest)"
    by simp
next
  assume "generate w (clock (summarizeMessages w cm)) (messages (summarizeMessages w cm)) =
      Inr response \<and> resp_tool_calls response = Some tcs \<and> tcs \<noteq> []"
  then show "runStep w maxSteps step cm =
        (case dispatchToolCalls (afterResponse w maxSteps step cm response) tcs of
           Inl e \<Rightarrow> Inl e
         | Inr cm' \<Rightarrow> Inr (Next cm'))"
    using runStep_dispatch [of w cm response tcs maxSteps step] by blast
qed

text \<open>
  The theorem at a tool that declares \<open>path\<close> and \<open>content\<close>: arguments given in the other
  order are passed in the declared order, a missing \<open>path\<close> is passed as \<open>undefined\<close>, and
  the dispatch records the result that \<open>execute\<close> returned.
\<close>

theorem positional_arguments_witness:
  "positionalArgs (schemaTool [''path'', ''content''])
     [(''content'', JString ''x''), (''path'', JString ''a.txt'')] =
     [JsData (JString ''a.txt''), JsData (JString ''x'')] \<and>
   positionalArgs (schemaTool [''path'', ''content'']) [(''content'', JString ''x'')] =
     [JsUndefined, JsData (JString ''x'')] \<and>
   dispatchToolCall (roomyContext [schemaTool [''path'', ''content'']] exampleShort)
     (exampleToolCall ''c1'' ''write_file''
        [(''content'', JString ''x''), (''path'', JString ''a.txt'')]) =
     Inr (recordedResult (roomyContext [schemaTool [''path'', ''content'']] exampleShort)
       (exampleToolCall ''c1'' ''write_file''
          [(''content'', JString ''x''), (''path'', JString ''a.txt'')])
       \<lparr>success = True, result_content = ''written'', error = None\<rparr>)"
proof -
  let ?tool = "schemaTool [''path'', ''content'']"
  let ?props = "[(''path'', JObject [(''type'', JString ''string'')]),
                 (''content'', JObject [(''type'', JString ''string'')])]"
  let ?cm = "roomyContext [?tool] exampleShort"
  have p: "properties ?tool = Some ?props"
    by (simp add: schemaTool_def)
  have td: "toolDict ?cm ''write_file'' = Some ?tool"
    by (simp add: toolDict_def roomyContext_def newContextManager_def) (simp add: schemaTool_def)
  have keys: "\<forall>key \<in> set (map fst ?props). \<not> isArrayIndex key \<and>
      (key \<in> set objectPrototypeKeys \<longrightarrow> key \<in> fst ` set callArgs)" for callArgs
    by (simp add: isArrayIndex_examples objectPrototypeKeys_def)
  have t: "positionalArgs ?tool callArgs = projectDeclared ?props callArgs \<and>
      dispatchToolCall ?cm (exampleToolCall i ''write_file'' callArgs) =
        outcomeOf ?cm (exampleToolCall i ''write_file'' callArgs)
          (execute ?tool (clock ?cm) (projectDeclared ?props callArgs))" for i callArgs
    using positional_arguments [where cm = ?cm and tool = ?tool and props = ?props
        and tc = "exampleToolCall i ''write_file'' callArgs"] td p keys [of callArgs]
    by (simp add: exampleToolCall_def)
  show ?thesis
    by (simp add: t projectDeclared_def outcomeOf_def) (simp add: schemaTool_def)
qed

text \<open>
  Claim C8 as stated fails in two cases. A tool that declares \<open>path\<close> and then \<open>0\<close> gets the
  argument \<open>0\<close> first, because \<open>Object.keys\<close> lists an array index before the other keys; the
  projection in the declared order has \<open>path\<close> first. A tool that declares \<open>constructor\<close> and
  is called without it gets the inherited \<open>Object.prototype.constructor\<close>, not \<open>undefined\<close>.
\<close>

theorem positional_arguments_counterexample:
  "positionalArgs (schemaTool [''path'', ''0''])
     [(''path'', JString ''a.txt''), (''0'', JString ''x'')] =
     [JsData (JString ''x''), JsData (JString ''a.txt'')] \<and>
   projectDeclared [(''path'', JNull), (''0'', JNull)]
     [(''path'', JString ''a.txt''), (''0'', JString ''x'')] =
     [JsData (JString ''a.txt''), JsData (JString ''x'')] \<and>
   positionalArgs (schemaTool [''constructor'']) [] = [Inherited ''constructor'']"
  by (simp add: positionalArgs_def schemaTool_def objectKeys_def ownEntries_def
        isArrayIndex_examples getProperty_def projectDeclared_def objectPrototypeKeys_def)











lemma roomy_toolDict:
  "toolDict (c\<lparr>tools := [throwingTool]\<rparr>) ''foo'' = None"
  "toolDict (c\<lparr>tools := [throwingTool]\<rparr>) ''read_file'' = Some throwingTool"
  by (simp_all add: toolDict_def throwingTool_def)









end
